theory Spec2Isabelle
  imports Complex_Main
begin

section \<open>Tensors\<close>

text \<open>
  The notebook computes on tensors of 32-bit floats. The embedding idealises the
  numbers to \<^typ>\<open>real\<close> and represents a tensor by nested lists, outermost dimension
  first: a batch of images is \<open>N \<times> C \<times> H \<times> W\<close>, the output of the model is
  \<open>N \<times> 10\<close>. An empty batch is the empty list; its channel and spatial sizes are
  not represented, and every layer accepts it, as the framework accepts a batch of
  shape \<open>(0, C, H, W)\<close>.
\<close>

type_synonym plane = "real list list"
type_synonym image = "plane list"
type_synonym tensor4 = "image list"
type_synonym tensor2 = "real list list"

datatype error = RuntimeError | ValueError | IndexError | ZeroDivisionError

definition has_shape2 :: "'a list list \<Rightarrow> nat \<Rightarrow> nat \<Rightarrow> bool" where
  "has_shape2 t h w \<longleftrightarrow> length t = h \<and> (\<forall>r \<in> set t. length r = w)"

definition has_shape3 :: "'a list list list \<Rightarrow> nat \<Rightarrow> nat \<Rightarrow> nat \<Rightarrow> bool" where
  "has_shape3 t c h w \<longleftrightarrow> length t = c \<and> (\<forall>p \<in> set t. has_shape2 p h w)"

definition has_shape4 :: "'a list list list list \<Rightarrow> nat \<Rightarrow> nat \<Rightarrow> nat \<Rightarrow> nat \<Rightarrow> bool" where
  "has_shape4 t n c h w \<longleftrightarrow> length t = n \<and> (\<forall>i \<in> set t. has_shape3 i c h w)"

text \<open>The sizes of a non-empty batch, read off its first image, plane and row.\<close>

definition channels :: "tensor4 \<Rightarrow> nat" where
  "channels x = (case x of [] \<Rightarrow> 0 | i # _ \<Rightarrow> length i)"

definition height :: "tensor4 \<Rightarrow> nat" where
  "height x = (case x of [] \<Rightarrow> 0 | i # _ \<Rightarrow> (case i of [] \<Rightarrow> 0 | p # _ \<Rightarrow> length p))"

definition width :: "tensor4 \<Rightarrow> nat" where
  "width x = (case x of [] \<Rightarrow> 0 | i # _ \<Rightarrow>
     (case i of [] \<Rightarrow> 0 | p # _ \<Rightarrow> (case p of [] \<Rightarrow> 0 | r # _ \<Rightarrow> length r)))"

section \<open>The layers of the framework\<close>

text \<open>
  The spatial-size formula of a convolution or pooling layer:
  \<open>floor ((n + 2p - f) / s) + 1\<close>. It is used where \<open>f \<le> n + 2p\<close>; the layers raise
  otherwise.
\<close>

definition out_size :: "nat \<Rightarrow> nat \<Rightarrow> nat \<Rightarrow> nat \<Rightarrow> nat" where
  "out_size n p f s = (n + 2 * p - f) div s + 1"

subsection \<open>\<open>nn.Conv2d\<close>\<close>

record conv2d =
  in_channels :: nat
  out_channels :: nat
  kernel_size :: nat
  stride :: nat
  padding :: nat
  conv_weight :: "real list list list list"
  conv_bias :: "real list"

text \<open>A plane read at row \<open>i\<close> and column \<open>j\<close> of its zero-padded extension.\<close>

definition padded :: "nat \<Rightarrow> plane \<Rightarrow> nat \<Rightarrow> nat \<Rightarrow> real" where
  "padded p pl i j =
     (if p \<le> i \<and> i - p < length pl \<and> p \<le> j \<and> j - p < length (pl ! (i - p))
      then pl ! (i - p) ! (j - p) else 0)"

definition conv_image :: "conv2d \<Rightarrow> nat \<Rightarrow> nat \<Rightarrow> image \<Rightarrow> image" where
  "conv_image L oh ow img =
     map (\<lambda>oc. map (\<lambda>i. map (\<lambda>j.
        conv_bias L ! oc +
        (\<Sum>c \<leftarrow> [0..<in_channels L]. \<Sum>di \<leftarrow> [0..<kernel_size L]. \<Sum>dj \<leftarrow> [0..<kernel_size L].
           conv_weight L ! oc ! c ! di ! dj *
           padded (padding L) (img ! c) (i * stride L + di) (j * stride L + dj)))
       [0..<ow]) [0..<oh]) [0..<out_channels L]"

definition conv2d_apply :: "conv2d \<Rightarrow> tensor4 \<Rightarrow> error + tensor4" where
  "conv2d_apply L x =
     (if x = [] then Inr []
      else if channels x \<noteq> in_channels L then Inl RuntimeError
      else if height x + 2 * padding L < kernel_size L
            \<or> width x + 2 * padding L < kernel_size L then Inl RuntimeError
      else Inr (map (conv_image L
                  (out_size (height x) (padding L) (kernel_size L) (stride L))
                  (out_size (width x) (padding L) (kernel_size L) (stride L))) x))"

subsection \<open>\<open>nn.BatchNorm2d\<close>\<close>

record batchnorm2d =
  num_features :: nat
  bn_weight :: "real list"
  bn_bias :: "real list"
  running_mean :: "real list"
  running_var :: "real list"
  num_batches_tracked :: nat

definition bn_eps :: real where
  "bn_eps = 1 / 100000"

definition bn_momentum :: real where
  "bn_momentum = 1 / 10"

text \<open>All values of channel \<open>c\<close> in the batch: over the images, rows and columns.\<close>

definition channel_values :: "tensor4 \<Rightarrow> nat \<Rightarrow> real list" where
  "channel_values x c = concat (map (\<lambda>img. concat (img ! c)) x)"

definition mean :: "real list \<Rightarrow> real" where
  "mean vs = sum_list vs / real (length vs)"

definition sq_dev :: "real list \<Rightarrow> real" where
  "sq_dev vs = (\<Sum>v \<leftarrow> vs. (v - mean vs)\<^sup>2)"

definition var_biased :: "real list \<Rightarrow> real" where
  "var_biased vs = sq_dev vs / real (length vs)"

definition var_unbiased :: "real list \<Rightarrow> real" where
  "var_unbiased vs = sq_dev vs / (real (length vs) - 1)"

definition bn_normalize :: "batchnorm2d \<Rightarrow> real list \<Rightarrow> real list \<Rightarrow> tensor4 \<Rightarrow> tensor4" where
  "bn_normalize L ms vs x =
     map (\<lambda>img. map (\<lambda>c. map (map (\<lambda>v.
        (v - ms ! c) / sqrt (vs ! c + bn_eps) * bn_weight L ! c + bn_bias L ! c)) (img ! c))
       [0..<num_features L]) x"

text \<open>
  In training mode the layer counts the batch, refuses a batch with a single value per
  channel, normalises with the statistics of the batch and moves its running statistics
  towards them. In evaluation mode it normalises with the running statistics and leaves
  them alone. On an empty batch only the counter moves.
\<close>

definition batchnorm2d_apply ::
  "bool \<Rightarrow> batchnorm2d \<Rightarrow> tensor4 \<Rightarrow> error + (tensor4 \<times> batchnorm2d)" where
  "batchnorm2d_apply train L x =
     (if train then
        (if length x * height x * width x = 1 then Inl ValueError
         else if x = [] then Inr ([], L\<lparr>num_batches_tracked := num_batches_tracked L + 1\<rparr>)
         else if channels x \<noteq> num_features L then Inl RuntimeError
         else
           let cs = [0..<num_features L];
               ms = map (\<lambda>c. mean (channel_values x c)) cs;
               vs = map (\<lambda>c. var_biased (channel_values x c)) cs;
               us = map (\<lambda>c. var_unbiased (channel_values x c)) cs
           in Inr (bn_normalize L ms vs x,
                   L\<lparr>running_mean :=
                        map (\<lambda>c. (1 - bn_momentum) * running_mean L ! c + bn_momentum * ms ! c) cs,
                     running_var :=
                        map (\<lambda>c. (1 - bn_momentum) * running_var L ! c + bn_momentum * us ! c) cs,
                     num_batches_tracked := num_batches_tracked L + 1\<rparr>))
      else
        (if x = [] then Inr ([], L)
         else if channels x \<noteq> num_features L then Inl RuntimeError
         else Inr (bn_normalize L (running_mean L) (running_var L) x, L)))"

subsection \<open>\<open>F.relu\<close>\<close>

definition relu :: "real \<Rightarrow> real" where
  "relu v = max 0 v"

definition relu4 :: "tensor4 \<Rightarrow> tensor4" where
  "relu4 x = map (map (map (map relu))) x"

definition relu2 :: "tensor2 \<Rightarrow> tensor2" where
  "relu2 x = map (map relu) x"

subsection \<open>\<open>nn.MaxPool2d\<close>\<close>

record maxpool2d =
  pool_kernel :: nat
  pool_stride :: nat

fun maximum :: "real list \<Rightarrow> real" where
  "maximum [] = 0"
| "maximum (v # vs) = fold max vs v"

definition pool_plane :: "maxpool2d \<Rightarrow> nat \<Rightarrow> nat \<Rightarrow> plane \<Rightarrow> plane" where
  "pool_plane L oh ow pl =
     map (\<lambda>i. map (\<lambda>j.
        maximum [pl ! (i * pool_stride L + di) ! (j * pool_stride L + dj).
                 di \<leftarrow> [0..<pool_kernel L], dj \<leftarrow> [0..<pool_kernel L]])
       [0..<ow]) [0..<oh]"

definition maxpool2d_apply :: "maxpool2d \<Rightarrow> tensor4 \<Rightarrow> error + tensor4" where
  "maxpool2d_apply L x =
     (if x = [] then Inr []
      else if height x < pool_kernel L \<or> width x < pool_kernel L then Inl RuntimeError
      else Inr (map (map (pool_plane L
                  (out_size (height x) 0 (pool_kernel L) (pool_stride L))
                  (out_size (width x) 0 (pool_kernel L) (pool_stride L)))) x))"

subsection \<open>\<open>nn.Flatten\<close>, \<open>nn.Linear\<close>, \<open>nn.LogSoftmax\<close>\<close>

definition flatten :: "tensor4 \<Rightarrow> tensor2" where
  "flatten x = map (\<lambda>img. concat (map concat img)) x"

record linear =
  in_features :: nat
  out_features :: nat
  fc_weight :: "real list list"
  fc_bias :: "real list"

definition linear_apply :: "linear \<Rightarrow> tensor2 \<Rightarrow> error + tensor2" where
  "linear_apply L x =
     (if \<exists>r \<in> set x. length r \<noteq> in_features L then Inl RuntimeError
      else Inr (map (\<lambda>r. map (\<lambda>oc.
              (\<Sum>k \<leftarrow> [0..<in_features L]. r ! k * fc_weight L ! oc ! k) + fc_bias L ! oc)
             [0..<out_features L]) x))"

definition log_softmax_row :: "real list \<Rightarrow> real list" where
  "log_softmax_row r = map (\<lambda>v. v - ln (\<Sum>u \<leftarrow> r. exp u)) r"

definition log_softmax :: "tensor2 \<Rightarrow> tensor2" where
  "log_softmax x = map log_softmax_row x"

section \<open>The model\<close>

record ConvNetModel =
  debug :: bool
  training :: bool
  conv1 :: conv2d
  bn1 :: batchnorm2d
  pool1 :: maxpool2d
  conv2 :: conv2d
  bn2 :: batchnorm2d
  pool2 :: maxpool2d
  fc :: linear

text \<open>
  The constructor. The framework draws the kernels and the weights of the linear layer at
  random; they are the argument here. A new module is in training mode, a new
  normalisation layer has scale one, shift zero, running mean zero, running variance one
  and has counted no batch.
\<close>

record init_params =
  conv1_w :: "real list list list list"
  conv1_b :: "real list"
  conv2_w :: "real list list list list"
  conv2_b :: "real list"
  fc_w :: "real list list"
  fc_b :: "real list"

definition BatchNorm2d :: "nat \<Rightarrow> batchnorm2d" where
  "BatchNorm2d n =
     \<lparr>num_features = n, bn_weight = replicate n 1, bn_bias = replicate n 0,
      running_mean = replicate n 0, running_var = replicate n 1, num_batches_tracked = 0\<rparr>"

definition MaxPool2d :: "nat \<Rightarrow> maxpool2d" where
  "MaxPool2d k = \<lparr>pool_kernel = k, pool_stride = k\<rparr>"

definition ConvNetModel_init :: "init_params \<Rightarrow> bool \<Rightarrow> ConvNetModel" where
  "ConvNetModel_init w dbg =
     \<lparr>debug = dbg, training = True,
      conv1 = \<lparr>in_channels = 1, out_channels = 6, kernel_size = 3, stride = 1, padding = 0,
                conv_weight = conv1_w w, conv_bias = conv1_b w\<rparr>,
      bn1 = BatchNorm2d 6,
      pool1 = MaxPool2d 2,
      conv2 = \<lparr>in_channels = 6, out_channels = 12, kernel_size = 3, stride = 2, padding = 0,
                conv_weight = conv2_w w, conv_bias = conv2_b w\<rparr>,
      bn2 = BatchNorm2d 12,
      pool2 = MaxPool2d 2,
      fc = \<lparr>in_features = 12 * 3 * 3, out_features = 10,
             fc_weight = fc_w w, fc_bias = fc_b w\<rparr>\<rparr>"

text \<open>
  The forward pass, line by line. The shape printing under \<open>debug\<close> has no effect on
  the result and is left out. The two normalisation layers update their buffers, so the
  model is returned with the output.
\<close>

definition forward :: "ConvNetModel \<Rightarrow> tensor4 \<Rightarrow> error + (tensor2 \<times> ConvNetModel)" where
  "forward m x =
     (case conv2d_apply (conv1 m) x of Inl e \<Rightarrow> Inl e | Inr c1 \<Rightarrow>
     (case batchnorm2d_apply (training m) (bn1 m) c1 of Inl e \<Rightarrow> Inl e | Inr (n1, b1) \<Rightarrow>
     (case maxpool2d_apply (pool1 m) (relu4 n1) of Inl e \<Rightarrow> Inl e | Inr p1 \<Rightarrow>
     (case conv2d_apply (conv2 m) p1 of Inl e \<Rightarrow> Inl e | Inr c2 \<Rightarrow>
     (case batchnorm2d_apply (training m) (bn2 m) c2 of Inl e \<Rightarrow> Inl e | Inr (n2, b2) \<Rightarrow>
     (case maxpool2d_apply (pool2 m) (relu4 n2) of Inl e \<Rightarrow> Inl e | Inr p2 \<Rightarrow>
     (case linear_apply (fc m) (flatten p2) of Inl e \<Rightarrow> Inl e | Inr f \<Rightarrow>
      Inr (log_softmax (relu2 f), m\<lparr>bn1 := b1, bn2 := b2\<rparr>))))))))"

section \<open>Data loading, loss and prediction\<close>

text \<open>
  \<open>DataLoader(data, batch_size=batch_size)\<close>: the examples in order, cut into batches of
  \<open>batch_size\<close>, the last one shorter when the size does not divide the number of
  examples. The framework refuses a batch size of zero when the loader is built, so
  \<open>batch_size\<close> is positive. A label is a class index, a natural number.
\<close>

record dataloader =
  dataset :: "(image \<times> nat) list"
  batch_size :: nat

function chunks :: "nat \<Rightarrow> 'a list \<Rightarrow> 'a list list" where
  "chunks n xs = (if n = 0 \<or> xs = [] then [] else take n xs # chunks n (drop n xs))"
  by pat_completeness auto
termination
  by (relation "measure (\<lambda>(n, xs). length xs)") auto

declare chunks.simps [simp del]

definition collate :: "(image \<times> nat) list \<Rightarrow> tensor4 \<times> nat list" where
  "collate ex = (map fst ex, map snd ex)"

definition batches :: "dataloader \<Rightarrow> (tensor4 \<times> nat list) list" where
  "batches dl = map collate (chunks (batch_size dl) (dataset dl))"

text \<open>\<open>len(dataloader)\<close>, as the framework computes it.\<close>

definition len_dataloader :: "dataloader \<Rightarrow> nat" where
  "len_dataloader dl = (length (dataset dl) + batch_size dl - 1) div batch_size dl"

type_synonym loss_fn = "tensor2 \<Rightarrow> nat list \<Rightarrow> error + real"

text \<open>
  \<open>nn.NLLLoss()\<close>: the mean over the batch of the negated output at the true label. It
  refuses a batch whose number of rows differs from the number of labels and a label that
  is not a class.
\<close>

definition nll_loss :: loss_fn where
  "nll_loss pred y =
     (if length pred \<noteq> length y then Inl ValueError
      else if \<exists>(r, l) \<in> set (zip pred y). length r \<le> l then Inl IndexError
      else Inr (- (\<Sum>(r, l) \<leftarrow> zip pred y. r ! l) / real (length y)))"

text \<open>\<open>argmax\<close> of a row: the index of its first maximal value.\<close>

fun argmax :: "real list \<Rightarrow> nat" where
  "argmax [] = 0"
| "argmax (v # vs) = (if \<forall>u \<in> set vs. u \<le> v then 0 else Suc (argmax vs))"

text \<open>
  \<open>(pred.argmax(1) == y).type(torch.float).sum().item()\<close>: the number of rows whose
  predicted class is the label. The model returns one row per image, so the rows and
  the labels of a batch pair up.
\<close>

definition num_correct :: "tensor2 \<Rightarrow> nat list \<Rightarrow> real" where
  "num_correct pred y = real (length (filter (\<lambda>(r, l). argmax r = l) (zip pred y)))"

section \<open>The evaluation loop\<close>

record report =
  accuracy :: real
  avg_loss :: real

text \<open>The body of the loop, over the batches, with the two accumulators.\<close>

fun test_batches ::
  "loss_fn \<Rightarrow> (tensor4 \<times> nat list) list \<Rightarrow> ConvNetModel \<Rightarrow> real \<Rightarrow> real
     \<Rightarrow> error + (real \<times> real \<times> ConvNetModel)" where
  "test_batches lf [] m test_loss correct = Inr (test_loss, correct, m)"
| "test_batches lf ((X, y) # bs) m test_loss correct =
     (case forward m X of Inl e \<Rightarrow> Inl e | Inr (pred, m') \<Rightarrow>
     (case lf pred y of Inl e \<Rightarrow> Inl e | Inr loss \<Rightarrow>
      test_batches lf bs m' (test_loss + loss) (correct + num_correct pred y)))"

text \<open>
  The loop runs without gradient tracking and touches no gradient. The report it prints
  is returned, with the model as the loop leaves it.
\<close>

definition test_loop :: "dataloader \<Rightarrow> ConvNetModel \<Rightarrow> loss_fn \<Rightarrow> error + (report \<times> ConvNetModel)" where
  "test_loop dl m lf =
     (case test_batches lf (batches dl) m 0 0 of Inl e \<Rightarrow> Inl e | Inr (test_loss, correct, m') \<Rightarrow>
       if len_dataloader dl = 0 then Inl ZeroDivisionError
       else if length (dataset dl) = 0 then Inl ZeroDivisionError
       else Inr (\<lparr>accuracy = correct / real (length (dataset dl)),
                  avg_loss = test_loss / real (len_dataloader dl)\<rparr>, m'))"

section \<open>The training loop\<close>

text \<open>The learnable parameters of the model, as \<open>model.parameters()\<close> lists them.\<close>

record params =
  p_conv1_weight :: "real list list list list"
  p_conv1_bias :: "real list"
  p_bn1_weight :: "real list"
  p_bn1_bias :: "real list"
  p_conv2_weight :: "real list list list list"
  p_conv2_bias :: "real list"
  p_bn2_weight :: "real list"
  p_bn2_bias :: "real list"
  p_fc_weight :: "real list list"
  p_fc_bias :: "real list"

definition parameters :: "ConvNetModel \<Rightarrow> params" where
  "parameters m =
     \<lparr>p_conv1_weight = conv_weight (conv1 m), p_conv1_bias = conv_bias (conv1 m),
      p_bn1_weight = bn_weight (bn1 m), p_bn1_bias = bn_bias (bn1 m),
      p_conv2_weight = conv_weight (conv2 m), p_conv2_bias = conv_bias (conv2 m),
      p_bn2_weight = bn_weight (bn2 m), p_bn2_bias = bn_bias (bn2 m),
      p_fc_weight = fc_weight (fc m), p_fc_bias = fc_bias (fc m)\<rparr>"

definition set_parameters :: "params \<Rightarrow> ConvNetModel \<Rightarrow> ConvNetModel" where
  "set_parameters p m =
     m\<lparr>conv1 := (conv1 m)\<lparr>conv_weight := p_conv1_weight p, conv_bias := p_conv1_bias p\<rparr>,
       bn1 := (bn1 m)\<lparr>bn_weight := p_bn1_weight p, bn_bias := p_bn1_bias p\<rparr>,
       conv2 := (conv2 m)\<lparr>conv_weight := p_conv2_weight p, conv_bias := p_conv2_bias p\<rparr>,
       bn2 := (bn2 m)\<lparr>bn_weight := p_bn2_weight p, bn_bias := p_bn2_bias p\<rparr>,
       fc := (fc m)\<lparr>fc_weight := p_fc_weight p, fc_bias := p_fc_bias p\<rparr>\<rparr>"

text \<open>
  Automatic differentiation and the optimizer belong to the framework and are
  parameters of the loop. \<open>gradient m X y\<close> stands for the gradient, with respect to the
  parameters, of the loss of the model \<open>m\<close> on the batch; \<open>loss.backward()\<close> adds it to
  the gradient buffer, or stores it when the buffer is cleared. \<open>optimizer.zero_grad()\<close>
  clears the buffer. \<open>optimizer.step()\<close> computes new parameters and a new optimizer
  state from the buffer.
\<close>

record ('g, 'o) framework =
  gradient :: "ConvNetModel \<Rightarrow> tensor4 \<Rightarrow> nat list \<Rightarrow> 'g"
  accumulate :: "'g \<Rightarrow> 'g \<Rightarrow> 'g"
  step :: "'o \<Rightarrow> 'g option \<Rightarrow> params \<Rightarrow> params \<times> 'o"

datatype event = ModelOutput | LossComputed | ZeroGrad | Backward | OptimizerStep

text \<open>
  The state the loop works on: the model, the gradient buffer of its parameters
  (\<open>None\<close> when cleared), the state of the optimizer, and the calls made so far, oldest
  first.
\<close>

record ('g, 'o) train_state =
  ts_model :: ConvNetModel
  ts_grad :: "'g option"
  ts_opt :: 'o
  ts_trace :: "event list"

definition backward :: "('g, 'o) framework \<Rightarrow> 'g \<Rightarrow> 'g option \<Rightarrow> 'g option" where
  "backward fw g buf = (case buf of None \<Rightarrow> Some g | Some g0 \<Rightarrow> Some (accumulate fw g0 g))"

text \<open>
  The five calls in the body of the loop, each on the training state. Every call does
  its work and records itself in the trace: \<open>model(X)\<close> runs the forward pass and keeps
  the model it leaves, \<open>loss_fn(pred, y)\<close> computes the loss,
  \<open>optimizer.zero_grad()\<close> clears the gradient buffer, \<open>loss.backward()\<close> adds the
  gradient of the loss to the buffer, \<open>optimizer.step()\<close> reads the buffer and writes
  the parameters and the optimizer state.
\<close>

definition model_call ::
  "('g, 'o) train_state \<Rightarrow> tensor4 \<Rightarrow> error + (tensor2 \<times> ('g, 'o) train_state)" where
  "model_call s X =
     (case forward (ts_model s) X of Inl e \<Rightarrow> Inl e | Inr (pred, m1) \<Rightarrow>
        Inr (pred, s\<lparr>ts_model := m1, ts_trace := ts_trace s @ [ModelOutput]\<rparr>))"

definition loss_call ::
  "loss_fn \<Rightarrow> tensor2 \<Rightarrow> nat list \<Rightarrow> ('g, 'o) train_state
     \<Rightarrow> error + (real \<times> ('g, 'o) train_state)" where
  "loss_call lf pred y s =
     (case lf pred y of Inl e \<Rightarrow> Inl e | Inr loss \<Rightarrow>
        Inr (loss, s\<lparr>ts_trace := ts_trace s @ [LossComputed]\<rparr>))"

definition zero_grad :: "('g, 'o) train_state \<Rightarrow> ('g, 'o) train_state" where
  "zero_grad s = s\<lparr>ts_grad := None, ts_trace := ts_trace s @ [ZeroGrad]\<rparr>"

definition loss_backward ::
  "('g, 'o) framework \<Rightarrow> 'g \<Rightarrow> ('g, 'o) train_state \<Rightarrow> ('g, 'o) train_state" where
  "loss_backward fw g s =
     s\<lparr>ts_grad := backward fw g (ts_grad s), ts_trace := ts_trace s @ [Backward]\<rparr>"

definition optimizer_step :: "('g, 'o) framework \<Rightarrow> ('g, 'o) train_state \<Rightarrow> ('g, 'o) train_state" where
  "optimizer_step fw s =
     (case step fw (ts_opt s) (ts_grad s) (parameters (ts_model s)) of (p, opt) \<Rightarrow>
        s\<lparr>ts_model := set_parameters p (ts_model s), ts_opt := opt,
          ts_trace := ts_trace s @ [OptimizerStep]\<rparr>)"

text \<open>
  One pass through the body of the loop, call by call in the order of the source. The
  loss carries the computation it came from, so its gradient is that of the model as it
  was when the batch entered. The progress line printed under \<open>verbose\<close> every
  hundredth batch has no effect on the state and is left out.
\<close>

definition train_batch ::
  "('g, 'o) framework \<Rightarrow> loss_fn \<Rightarrow> ('g, 'o) train_state \<Rightarrow> tensor4 \<times> nat list
     \<Rightarrow> error + ('g, 'o) train_state" where
  "train_batch fw lf s b =
     (case b of (X, y) \<Rightarrow>
     (case model_call s X of Inl e \<Rightarrow> Inl e | Inr (pred, s1) \<Rightarrow>
     (case loss_call lf pred y s1 of Inl e \<Rightarrow> Inl e | Inr (loss, s2) \<Rightarrow>
        Inr (optimizer_step fw
              (loss_backward fw (gradient fw (ts_model s) X y)
                (zero_grad s2))))))"

fun train_batches ::
  "('g, 'o) framework \<Rightarrow> loss_fn \<Rightarrow> (tensor4 \<times> nat list) list \<Rightarrow> ('g, 'o) train_state
     \<Rightarrow> error + ('g, 'o) train_state" where
  "train_batches fw lf [] s = Inr s"
| "train_batches fw lf (b # bs) s =
     (case train_batch fw lf s b of Inl e \<Rightarrow> Inl e | Inr s' \<Rightarrow> train_batches fw lf bs s')"

definition train_loop ::
  "('g, 'o) framework \<Rightarrow> dataloader \<Rightarrow> loss_fn \<Rightarrow> ('g, 'o) train_state
     \<Rightarrow> error + ('g, 'o) train_state" where
  "train_loop fw dl lf s = train_batches fw lf (batches dl) s"

section \<open>The driver\<close>

text \<open>
  The last cell: a new model, the negative log-likelihood loss, an optimizer over the
  parameters of the model, and ten epochs, each a training loop over the training data
  followed by an evaluation loop over the test data. The initial weights and the initial
  state of the optimizer are arguments. The reports of the epochs are returned in order.
\<close>

definition epochs :: nat where
  "epochs = 10"

fun epochs_loop ::
  "('g, 'o) framework \<Rightarrow> dataloader \<Rightarrow> dataloader \<Rightarrow> loss_fn \<Rightarrow> nat \<Rightarrow> ('g, 'o) train_state
     \<Rightarrow> error + (report list \<times> ('g, 'o) train_state)" where
  "epochs_loop fw train_loader test_loader lf 0 s = Inr ([], s)"
| "epochs_loop fw train_loader test_loader lf (Suc t) s =
     (case train_loop fw train_loader lf s of Inl e \<Rightarrow> Inl e | Inr s1 \<Rightarrow>
     (case test_loop test_loader (ts_model s1) lf of Inl e \<Rightarrow> Inl e | Inr (r, m2) \<Rightarrow>
     (case epochs_loop fw train_loader test_loader lf t (s1\<lparr>ts_model := m2\<rparr>) of
        Inl e \<Rightarrow> Inl e | Inr (rs, s2) \<Rightarrow> Inr (r # rs, s2))))"

definition driver ::
  "('g, 'o) framework \<Rightarrow> init_params \<Rightarrow> 'o \<Rightarrow> dataloader \<Rightarrow> dataloader
     \<Rightarrow> error + (report list \<times> ('g, 'o) train_state)" where
  "driver fw w opt0 train_loader test_loader =
     epochs_loop fw train_loader test_loader nll_loss epochs
       \<lparr>ts_model = ConvNetModel_init w False, ts_grad = None, ts_opt = opt0, ts_trace = []\<rparr>"

section \<open>Notions used in the properties\<close>

text \<open>The layer configuration that the constructor fixes.\<close>

definition architecture :: "ConvNetModel \<Rightarrow> bool" where
  "architecture m \<longleftrightarrow>
     in_channels (conv1 m) = 1 \<and> out_channels (conv1 m) = 6 \<and> kernel_size (conv1 m) = 3 \<and>
     stride (conv1 m) = 1 \<and> padding (conv1 m) = 0 \<and>
     num_features (bn1 m) = 6 \<and> pool_kernel (pool1 m) = 2 \<and> pool_stride (pool1 m) = 2 \<and>
     in_channels (conv2 m) = 6 \<and> out_channels (conv2 m) = 12 \<and> kernel_size (conv2 m) = 3 \<and>
     stride (conv2 m) = 2 \<and> padding (conv2 m) = 0 \<and>
     num_features (bn2 m) = 12 \<and> pool_kernel (pool2 m) = 2 \<and> pool_stride (pool2 m) = 2 \<and>
     in_features (fc m) = 108 \<and> out_features (fc m) = 10"

text \<open>
  A model with the buffers of its two normalisation layers blanked: what is left is the
  configuration, the mode and the learnable parameters.
\<close>

definition clear_stats :: "batchnorm2d \<Rightarrow> batchnorm2d" where
  "clear_stats L = L\<lparr>running_mean := [], running_var := [], num_batches_tracked := 0\<rparr>"

definition clear_buffers :: "ConvNetModel \<Rightarrow> ConvNetModel" where
  "clear_buffers m = m\<lparr>bn1 := clear_stats (bn1 m), bn2 := clear_stats (bn2 m)\<rparr>"

text \<open>The output of a forward pass alone, and the loss of a batch under a loss function.\<close>

definition outputs :: "ConvNetModel \<Rightarrow> tensor4 \<Rightarrow> error + tensor2" where
  "outputs m X = (case forward m X of Inl e \<Rightarrow> Inl e | Inr (pred, m') \<Rightarrow> Inr pred)"

definition batch_loss :: "loss_fn \<Rightarrow> ConvNetModel \<Rightarrow> tensor4 \<times> nat list \<Rightarrow> real" where
  "batch_loss lf m b =
     (case outputs m (fst b) of Inl e \<Rightarrow> 0 | Inr pred \<Rightarrow>
     (case lf pred (snd b) of Inl e \<Rightarrow> 0 | Inr loss \<Rightarrow> loss))"

text \<open>
  The rows of the outputs of the batches, each paired with its true label, and what it
  means for a label to be the index of the maximum of a row: it is an index of the row,
  no entry is larger, and every earlier entry is smaller.
\<close>

definition predictions :: "ConvNetModel \<Rightarrow> (tensor4 \<times> nat list) list \<Rightarrow> (real list \<times> nat) list" where
  "predictions m bs =
     concat (map (\<lambda>b. case outputs m (fst b) of Inl e \<Rightarrow> [] | Inr pred \<Rightarrow> zip pred (snd b)) bs)"

definition is_index_of_max :: "real list \<Rightarrow> nat \<Rightarrow> bool" where
  "is_index_of_max r l \<longleftrightarrow>
     l < length r \<and> list_all (\<lambda>u. u \<le> r ! l) r \<and> list_all (\<lambda>u. u < r ! l) (take l r)"

text \<open>A data set of grayscale 28 by 28 images with labels among the ten classes.\<close>

definition valid_example :: "image \<times> nat \<Rightarrow> bool" where
  "valid_example ex \<longleftrightarrow> has_shape3 (fst ex) 1 28 28 \<and> snd ex < 10"

definition valid_batch :: "tensor4 \<times> nat list \<Rightarrow> bool" where
  "valid_batch b \<longleftrightarrow>
     fst b \<noteq> [] \<and> list_all (\<lambda>i. has_shape3 i 1 28 28) (fst b) \<and>
     length (snd b) = length (fst b) \<and> list_all (\<lambda>l. l < 10) (snd b)"

definition valid_loader :: "dataloader \<Rightarrow> bool" where
  "valid_loader dl \<longleftrightarrow> 0 < batch_size dl \<and> dataset dl \<noteq> [] \<and> list_all valid_example (dataset dl)"

text \<open>
  The order of calls in one pass of the training loop as the specification words it:
  output, loss, gradients, optimizer step, and the clearing of the gradients last.
\<close>

definition specified_batch_order :: "event list" where
  "specified_batch_order = [ModelOutput, LossComputed, Backward, OptimizerStep, ZeroGrad]"

definition trace_of :: "error + ('g, 'o) train_state \<Rightarrow> event list option" where
  "trace_of r = (case r of Inl e \<Rightarrow> None | Inr s \<Rightarrow> Some (ts_trace s))"

definition grad_of :: "error + ('g, 'o) train_state \<Rightarrow> 'g option" where
  "grad_of r = (case r of Inl e \<Rightarrow> None | Inr s \<Rightarrow> ts_grad s)"

text \<open>
  The training loop with the body in the order that the specification words: the same
  five calls, the clearing of the gradients moved behind the optimizer step.
\<close>

definition train_batch_specified ::
  "('g, 'o) framework \<Rightarrow> loss_fn \<Rightarrow> ('g, 'o) train_state \<Rightarrow> tensor4 \<times> nat list
     \<Rightarrow> error + ('g, 'o) train_state" where
  "train_batch_specified fw lf s b =
     (case b of (X, y) \<Rightarrow>
     (case model_call s X of Inl e \<Rightarrow> Inl e | Inr (pred, s1) \<Rightarrow>
     (case loss_call lf pred y s1 of Inl e \<Rightarrow> Inl e | Inr (loss, s2) \<Rightarrow>
        Inr (zero_grad
              (optimizer_step fw
                (loss_backward fw (gradient fw (ts_model s) X y) s2))))))"

fun train_batches_specified ::
  "('g, 'o) framework \<Rightarrow> loss_fn \<Rightarrow> (tensor4 \<times> nat list) list \<Rightarrow> ('g, 'o) train_state
     \<Rightarrow> error + ('g, 'o) train_state" where
  "train_batches_specified fw lf [] s = Inr s"
| "train_batches_specified fw lf (b # bs) s =
     (case train_batch_specified fw lf s b of Inl e \<Rightarrow> Inl e
      | Inr s' \<Rightarrow> train_batches_specified fw lf bs s')"

definition train_loop_specified ::
  "('g, 'o) framework \<Rightarrow> dataloader \<Rightarrow> loss_fn \<Rightarrow> ('g, 'o) train_state
     \<Rightarrow> error + ('g, 'o) train_state" where
  "train_loop_specified fw dl lf s = train_batches_specified fw lf (batches dl) s"

text \<open>
  The forward pass in the order that the comments of \<open>forward\<close> and the specification
  give for the two convolution stages: convolution, activation, normalisation, pooling.
\<close>

definition forward_documented :: "ConvNetModel \<Rightarrow> tensor4 \<Rightarrow> error + (tensor2 \<times> ConvNetModel)" where
  "forward_documented m x =
     (case conv2d_apply (conv1 m) x of Inl e \<Rightarrow> Inl e | Inr c1 \<Rightarrow>
     (case batchnorm2d_apply (training m) (bn1 m) (relu4 c1) of Inl e \<Rightarrow> Inl e | Inr (n1, b1) \<Rightarrow>
     (case maxpool2d_apply (pool1 m) n1 of Inl e \<Rightarrow> Inl e | Inr p1 \<Rightarrow>
     (case conv2d_apply (conv2 m) p1 of Inl e \<Rightarrow> Inl e | Inr c2 \<Rightarrow>
     (case batchnorm2d_apply (training m) (bn2 m) (relu4 c2) of Inl e \<Rightarrow> Inl e | Inr (n2, b2) \<Rightarrow>
     (case maxpool2d_apply (pool2 m) n2 of Inl e \<Rightarrow> Inl e | Inr p2 \<Rightarrow>
     (case linear_apply (fc m) (flatten p2) of Inl e \<Rightarrow> Inl e | Inr f \<Rightarrow>
      Inr (log_softmax (relu2 f), m\<lparr>bn1 := b1, bn2 := b2\<rparr>))))))))"

definition outputs_documented :: "ConvNetModel \<Rightarrow> tensor4 \<Rightarrow> error + tensor2" where
  "outputs_documented m X =
     (case forward_documented m X of Inl e \<Rightarrow> Inl e | Inr (pred, m') \<Rightarrow> Inr pred)"

text \<open>
  The inputs of the two normalisation layers in a forward pass in training mode, the
  batch statistics of a tensor per channel, and the step by which a running statistic
  moves towards a batch statistic.
\<close>

definition bn1_input :: "ConvNetModel \<Rightarrow> tensor4 \<Rightarrow> tensor4" where
  "bn1_input m X = (case conv2d_apply (conv1 m) X of Inl e \<Rightarrow> [] | Inr c1 \<Rightarrow> c1)"

definition bn2_input :: "ConvNetModel \<Rightarrow> tensor4 \<Rightarrow> tensor4" where
  "bn2_input m X =
     (case conv2d_apply (conv1 m) X of Inl e \<Rightarrow> [] | Inr c1 \<Rightarrow>
     (case batchnorm2d_apply True (bn1 m) c1 of Inl e \<Rightarrow> [] | Inr (n1, b1) \<Rightarrow>
     (case maxpool2d_apply (pool1 m) (relu4 n1) of Inl e \<Rightarrow> [] | Inr p1 \<Rightarrow>
     (case conv2d_apply (conv2 m) p1 of Inl e \<Rightarrow> [] | Inr c2 \<Rightarrow> c2))))"

text \<open>
  What it means to normalise a tensor with its own statistics: every value of a channel
  has the mean of the channel over the batch subtracted and is divided by the square
  root of the biased variance of the channel over the batch plus \<open>eps\<close>, then scaled
  and shifted by the weight and bias of the channel.
\<close>

definition batch_normalized :: "batchnorm2d \<Rightarrow> tensor4 \<Rightarrow> tensor4" where
  "batch_normalized L x =
     map (\<lambda>img. map (\<lambda>c. map (map (\<lambda>v.
        (v - mean (channel_values x c)) / sqrt (var_biased (channel_values x c) + bn_eps)
          * bn_weight L ! c + bn_bias L ! c)) (img ! c))
       [0..<num_features L]) x"

text \<open>
  The part of the forward pass between the two normalisation layers, and the part after
  the second one.
\<close>

definition after_bn1 :: "ConvNetModel \<Rightarrow> tensor4 \<Rightarrow> tensor4" where
  "after_bn1 m n1 =
     (case maxpool2d_apply (pool1 m) (relu4 n1) of Inl e \<Rightarrow> [] | Inr p1 \<Rightarrow>
     (case conv2d_apply (conv2 m) p1 of Inl e \<Rightarrow> [] | Inr c2 \<Rightarrow> c2))"

definition after_bn2 :: "ConvNetModel \<Rightarrow> tensor4 \<Rightarrow> error + tensor2" where
  "after_bn2 m n2 =
     (case maxpool2d_apply (pool2 m) (relu4 n2) of Inl e \<Rightarrow> Inl e | Inr p2 \<Rightarrow>
     (case linear_apply (fc m) (flatten p2) of Inl e \<Rightarrow> Inl e | Inr f \<Rightarrow>
        Inr (log_softmax (relu2 f))))"

definition batch_means :: "tensor4 \<Rightarrow> nat \<Rightarrow> real list" where
  "batch_means x n = map (\<lambda>c. mean (channel_values x c)) [0..<n]"

definition batch_vars :: "tensor4 \<Rightarrow> nat \<Rightarrow> real list" where
  "batch_vars x n = map (\<lambda>c. var_unbiased (channel_values x c)) [0..<n]"

definition moving_average :: "real list \<Rightarrow> real list \<Rightarrow> real list" where
  "moving_average old new =
     map (\<lambda>c. (1 - bn_momentum) * old ! c + bn_momentum * new ! c) [0..<length new]"

text \<open>
  A running statistic after a sequence of batches: moved once per batch, in order,
  towards the statistic \<open>stat\<close> of the batch.
\<close>

definition track :: "(tensor4 \<Rightarrow> real list) \<Rightarrow> (tensor4 \<times> nat list) list \<Rightarrow> real list \<Rightarrow> real list" where
  "track stat bs old = fold (\<lambda>b r. moving_average r (stat (fst b))) bs old"

text \<open>
  A concrete model and a concrete data set: an all-black image, a batch and a loader
  that hold it once with label \<open>0\<close>, and a model whose kernels are zero, whose second
  normalisation layer has shift \<open>-1\<close> and whose linear layer has weight \<open>-1\<close> on the
  first class and zero elsewhere. With them, a framework whose gradients carry no
  information and whose optimizer step leaves the parameters as they are, and a training
  state that starts from the model with the gradients cleared.
\<close>

definition black_image :: image where
  "black_image = replicate 1 (replicate 28 (replicate 28 0))"

definition black_batch :: tensor4 where
  "black_batch = [black_image]"

definition black_loader :: dataloader where
  "black_loader = \<lparr>dataset = [(black_image, 0)], batch_size = 64\<rparr>"

definition example_weights :: init_params where
  "example_weights =
     \<lparr>conv1_w = replicate 6 (replicate 1 (replicate 3 (replicate 3 0))),
      conv1_b = replicate 6 0,
      conv2_w = replicate 12 (replicate 6 (replicate 3 (replicate 3 0))),
      conv2_b = replicate 12 0,
      fc_w = replicate 108 (- 1) # replicate 9 (replicate 108 0),
      fc_b = replicate 10 0\<rparr>"

definition example_model :: ConvNetModel where
  "example_model =
     (ConvNetModel_init example_weights False)
       \<lparr>bn2 := (BatchNorm2d 12)\<lparr>bn_bias := replicate 12 (- 1)\<rparr>\<rparr>"

text \<open>A tensor of shape \<open>(n, c, h, w)\<close> with the same value everywhere.\<close>

definition const4 :: "nat \<Rightarrow> nat \<Rightarrow> nat \<Rightarrow> nat \<Rightarrow> real \<Rightarrow> tensor4" where
  "const4 n c h w v = replicate n (replicate c (replicate h (replicate w v)))"

definition example_framework :: "(unit, unit) framework" where
  "example_framework =
     \<lparr>gradient = (\<lambda>m X y. ()), accumulate = (\<lambda>g0 g. ()), step = (\<lambda>opt g p. (p, opt))\<rparr>"

definition example_state :: "(unit, unit) train_state" where
  "example_state = \<lparr>ts_model = example_model, ts_grad = None, ts_opt = (), ts_trace = []\<rparr>"

text \<open>
  A loader of three black images in batches of two, so with a batch of two and a batch
  of one. A framework that makes the data flow visible: the gradient of a batch is the
  number of its examples, accumulation is addition, and the optimizer step leaves the
  parameters alone and appends the buffer it read to the optimizer state. A training
  state whose gradient buffer still holds a gradient, \<open>7\<close>, from earlier.
\<close>

definition pair_loader :: dataloader where
  "pair_loader = \<lparr>dataset = [(black_image, 0), (black_image, 1), (black_image, 2)], batch_size = 2\<rparr>"

definition counting_framework :: "(nat, nat option list) framework" where
  "counting_framework =
     \<lparr>gradient = (\<lambda>m X y. length y), accumulate = (\<lambda>g0 g. g0 + g),
      step = (\<lambda>opt g p. (p, opt @ [g]))\<rparr>"

definition stale_state :: "(nat, nat option list) train_state" where
  "stale_state = \<lparr>ts_model = example_model, ts_grad = Some 7, ts_opt = [], ts_trace = []\<rparr>"

definition opt_of :: "error + ('g, 'o) train_state \<Rightarrow> 'o option" where
  "opt_of r = (case r of Inl e \<Rightarrow> None | Inr s \<Rightarrow> Some (ts_opt s))"

section \<open>Shapes through the layers\<close>

lemma has_shape4_sizes:
  assumes "has_shape4 x n c h w" "0 < n" "0 < c" "0 < h"
  shows "x \<noteq> []" "channels x = c" "height x = h" "width x = w"
proof -
  from assms obtain i xs where x: "x = i # xs" by (cases x) (auto simp: has_shape4_def)
  with assms have i: "has_shape3 i c h w" by (simp add: has_shape4_def)
  with assms obtain p ps where ip: "i = p # ps" by (cases i) (auto simp: has_shape3_def)
  with i have p: "has_shape2 p h w" by (simp add: has_shape3_def)
  with assms obtain r rs where pr: "p = r # rs" by (cases p) (auto simp: has_shape2_def)
  show "x \<noteq> []" using x by simp
  show "channels x = c" using x i by (simp add: channels_def has_shape3_def)
  show "height x = h" using x ip p by (simp add: height_def has_shape2_def)
  show "width x = w" using x ip pr p by (simp add: width_def has_shape2_def)
qed

lemma conv_image_shape: "has_shape3 (conv_image L oh ow img) (out_channels L) oh ow"
  by (auto simp: conv_image_def has_shape3_def has_shape2_def)

lemma conv2d_apply_shape:
  assumes "has_shape4 x n c h w" "0 < n" "0 < c" "0 < h"
    and "c = in_channels L" "kernel_size L \<le> h + 2 * padding L" "kernel_size L \<le> w + 2 * padding L"
  shows "\<exists>y. conv2d_apply L x = Inr y \<and>
           has_shape4 y n (out_channels L)
             (out_size h (padding L) (kernel_size L) (stride L))
             (out_size w (padding L) (kernel_size L) (stride L))"
  using assms has_shape4_sizes[OF assms(1-4)]
  by (auto simp: conv2d_apply_def has_shape4_def conv_image_shape)

lemma has_shape3_nth: "has_shape3 img c h w \<Longrightarrow> k < c \<Longrightarrow> has_shape2 (img ! k) h w"
  by (simp add: has_shape3_def)

lemma bn_normalize_shape:
  assumes "has_shape4 x n c h w" "c = num_features L"
  shows "has_shape4 (bn_normalize L ms vs x) n c h w"
proof -
  have "has_shape3 (map (\<lambda>k. map (map (f k)) (img ! k)) [0..<c]) c h w"
    if "has_shape3 img c h w" for img :: image and f :: "nat \<Rightarrow> real \<Rightarrow> real"
    using has_shape3_nth[OF that] by (auto simp: has_shape3_def has_shape2_def)
  with assms show ?thesis
    by (simp add: bn_normalize_def has_shape4_def)
qed

lemma batchnorm2d_apply_shape:
  assumes "has_shape4 x n c h w" "0 < n" "0 < c" "0 < h"
    and "c = num_features L" "n * h * w \<noteq> 1"
  shows "\<exists>y L'. batchnorm2d_apply t L x = Inr (y, L') \<and> has_shape4 y n c h w"
  using assms has_shape4_sizes[OF assms(1-4)] bn_normalize_shape[OF assms(1) assms(5)]
  by (auto simp: batchnorm2d_apply_def Let_def has_shape4_def)

lemma relu4_shape: "has_shape4 x n c h w \<Longrightarrow> has_shape4 (relu4 x) n c h w"
  by (auto simp: relu4_def has_shape4_def has_shape3_def has_shape2_def)

lemma pool_plane_shape: "has_shape2 (pool_plane L oh ow pl) oh ow"
  by (auto simp: pool_plane_def has_shape2_def)

lemma maxpool2d_apply_shape:
  assumes "has_shape4 x n c h w" "0 < n" "0 < c" "0 < h"
    and "pool_kernel L \<le> h" "pool_kernel L \<le> w"
  shows "\<exists>y. maxpool2d_apply L x = Inr y \<and>
           has_shape4 y n c (out_size h 0 (pool_kernel L) (pool_stride L))
                            (out_size w 0 (pool_kernel L) (pool_stride L))"
  using assms has_shape4_sizes[OF assms(1-4)]
  by (auto simp: maxpool2d_apply_def has_shape4_def has_shape3_def pool_plane_shape)

lemma length_concat_uniform: "\<forall>r \<in> set xs. length r = w \<Longrightarrow> length (concat xs) = length xs * w"
  by (induction xs) auto

lemma flatten_shape:
  assumes "has_shape4 x n c h w"
  shows "has_shape2 (flatten x) n (c * h * w)"
proof -
  have "length (concat (map concat img)) = c * h * w" if "has_shape3 img c h w" for img :: image
  proof -
    have "\<forall>r \<in> set (map concat img). length r = h * w"
      using that by (auto simp: has_shape3_def has_shape2_def length_concat_uniform)
    from length_concat_uniform[OF this] that show ?thesis
      by (simp add: has_shape3_def)
  qed
  with assms show ?thesis by (auto simp: flatten_def has_shape2_def has_shape4_def)
qed

lemma linear_apply_shape:
  assumes "has_shape2 x n f" "f = in_features L"
  shows "\<exists>y. linear_apply L x = Inr y \<and> has_shape2 y n (out_features L)"
  using assms by (auto simp: linear_apply_def has_shape2_def)

lemma relu2_shape: "has_shape2 x n f \<Longrightarrow> has_shape2 (relu2 x) n f"
  by (auto simp: relu2_def has_shape2_def)

lemma log_softmax_shape: "has_shape2 x n f \<Longrightarrow> has_shape2 (log_softmax x) n f"
  by (auto simp: log_softmax_def log_softmax_row_def has_shape2_def)


lemma architecture_init: "architecture (ConvNetModel_init w dbg)"
  by (simp add: architecture_def ConvNetModel_init_def BatchNorm2d_def MaxPool2d_def)

lemma out_size_values:
  "out_size 28 0 3 1 = 26" "out_size 26 0 2 2 = 13" "out_size 13 0 3 2 = 6" "out_size 6 0 2 2 = 3"
  by (simp_all add: out_size_def)

lemma forward_stages:
  assumes a: "architecture m" and x: "has_shape4 x n 1 28 28" and n: "0 < n"
  shows "\<exists>c1 n1 b1 p1 c2 n2 b2 p2 f.
           conv2d_apply (conv1 m) x = Inr c1 \<and> has_shape4 c1 n 6 26 26 \<and>
           batchnorm2d_apply (training m) (bn1 m) c1 = Inr (n1, b1) \<and> has_shape4 n1 n 6 26 26 \<and>
           maxpool2d_apply (pool1 m) (relu4 n1) = Inr p1 \<and> has_shape4 p1 n 6 13 13 \<and>
           conv2d_apply (conv2 m) p1 = Inr c2 \<and> has_shape4 c2 n 12 6 6 \<and>
           batchnorm2d_apply (training m) (bn2 m) c2 = Inr (n2, b2) \<and> has_shape4 n2 n 12 6 6 \<and>
           maxpool2d_apply (pool2 m) (relu4 n2) = Inr p2 \<and> has_shape4 p2 n 12 3 3 \<and>
           has_shape2 (flatten p2) n 108 \<and>
           linear_apply (fc m) (flatten p2) = Inr f \<and> has_shape2 f n 10 \<and>
           forward m x = Inr (log_softmax (relu2 f), m\<lparr>bn1 := b1, bn2 := b2\<rparr>)"
proof -
  from conv2d_apply_shape[OF x n, of "conv1 m"] a
  obtain c1 where c1: "conv2d_apply (conv1 m) x = Inr c1" "has_shape4 c1 n 6 26 26"
    by (auto simp: architecture_def out_size_def)
  from n have "n * 26 * 26 \<noteq> 1" by simp
  with batchnorm2d_apply_shape[OF c1(2) n, of "bn1 m" "training m"] a
  obtain n1 b1 where n1: "batchnorm2d_apply (training m) (bn1 m) c1 = Inr (n1, b1)"
      "has_shape4 n1 n 6 26 26"
    by (auto simp: architecture_def)
  from maxpool2d_apply_shape[OF relu4_shape[OF n1(2)] n, of "pool1 m"] a
  obtain p1 where p1: "maxpool2d_apply (pool1 m) (relu4 n1) = Inr p1" "has_shape4 p1 n 6 13 13"
    by (auto simp: architecture_def out_size_def)
  from conv2d_apply_shape[OF p1(2) n, of "conv2 m"] a
  obtain c2 where c2: "conv2d_apply (conv2 m) p1 = Inr c2" "has_shape4 c2 n 12 6 6"
    by (auto simp: architecture_def out_size_def)
  from n have "n * 6 * 6 \<noteq> 1" by simp
  with batchnorm2d_apply_shape[OF c2(2) n, of "bn2 m" "training m"] a
  obtain n2 b2 where n2: "batchnorm2d_apply (training m) (bn2 m) c2 = Inr (n2, b2)"
      "has_shape4 n2 n 12 6 6"
    by (auto simp: architecture_def)
  from maxpool2d_apply_shape[OF relu4_shape[OF n2(2)] n, of "pool2 m"] a
  obtain p2 where p2: "maxpool2d_apply (pool2 m) (relu4 n2) = Inr p2" "has_shape4 p2 n 12 3 3"
    by (auto simp: architecture_def out_size_def)
  from flatten_shape[OF p2(2)] have fl: "has_shape2 (flatten p2) n 108" by simp
  from linear_apply_shape[OF fl, of "fc m"] a
  obtain f where f: "linear_apply (fc m) (flatten p2) = Inr f" "has_shape2 f n 10"
    by (auto simp: architecture_def)
  have "forward m x = Inr (log_softmax (relu2 f), m\<lparr>bn1 := b1, bn2 := b2\<rparr>)"
    by (simp add: forward_def c1 n1 p1 c2 n2 p2 f)
  with c1 n1 p1 c2 n2 p2 fl f show ?thesis by blast
qed


lemma forward_InrD:
  assumes "forward m x = Inr (out, m')"
  shows "\<exists>c1 n1 b1 p1 c2 n2 b2 p2 f.
           conv2d_apply (conv1 m) x = Inr c1 \<and>
           batchnorm2d_apply (training m) (bn1 m) c1 = Inr (n1, b1) \<and>
           maxpool2d_apply (pool1 m) (relu4 n1) = Inr p1 \<and>
           conv2d_apply (conv2 m) p1 = Inr c2 \<and>
           batchnorm2d_apply (training m) (bn2 m) c2 = Inr (n2, b2) \<and>
           maxpool2d_apply (pool2 m) (relu4 n2) = Inr p2 \<and>
           linear_apply (fc m) (flatten p2) = Inr f \<and>
           out = log_softmax (relu2 f) \<and> m' = m\<lparr>bn1 := b1, bn2 := b2\<rparr>"
  using assms unfolding forward_def
  by (simp split: sum.splits prod.splits)

lemma clear_stats_eqD:
  assumes "clear_stats L2 = clear_stats L"
  shows "num_features L2 = num_features L" "bn_weight L2 = bn_weight L" "bn_bias L2 = bn_bias L"
proof -
  have "num_features (clear_stats K) = num_features K" "bn_weight (clear_stats K) = bn_weight K"
       "bn_bias (clear_stats K) = bn_bias K" for K
    by (simp_all add: clear_stats_def)
  with assms show "num_features L2 = num_features L" "bn_weight L2 = bn_weight L"
      "bn_bias L2 = bn_bias L"
    by metis+
qed

lemma bn_normalize_cong:
  assumes "clear_stats L2 = clear_stats L"
  shows "bn_normalize L2 ms vs x = bn_normalize L ms vs x"
  using clear_stats_eqD[OF assms] by (simp add: bn_normalize_def)

lemma batchnorm2d_apply_stats:
  assumes "batchnorm2d_apply t L x = Inr (y, L')"
  shows "clear_stats L' = clear_stats L"
    and "\<not> t \<Longrightarrow> L' = L"
    and "t \<Longrightarrow> num_batches_tracked L' = num_batches_tracked L + 1"
  using assms
  by (auto simp: batchnorm2d_apply_def Let_def clear_stats_def split: if_splits)

lemma batchnorm2d_apply_indep:
  assumes "clear_stats L2 = clear_stats L"
  shows "batchnorm2d_apply True L x = Inl e \<Longrightarrow> batchnorm2d_apply True L2 x = Inl e"
    and "batchnorm2d_apply True L x = Inr (y, L') \<Longrightarrow> \<exists>L2'. batchnorm2d_apply True L2 x = Inr (y, L2')"
  using clear_stats_eqD[OF assms] bn_normalize_cong[OF assms]
  by (auto simp: batchnorm2d_apply_def Let_def split: if_splits)

lemma clear_buffers_eqD:
  assumes "clear_buffers m2 = clear_buffers m"
  shows "conv1 m2 = conv1 m" "pool1 m2 = pool1 m" "conv2 m2 = conv2 m" "pool2 m2 = pool2 m"
    "fc m2 = fc m" "training m2 = training m" "debug m2 = debug m"
    "clear_stats (bn1 m2) = clear_stats (bn1 m)" "clear_stats (bn2 m2) = clear_stats (bn2 m)"
proof -
  have "conv1 (clear_buffers k) = conv1 k" "pool1 (clear_buffers k) = pool1 k"
    "conv2 (clear_buffers k) = conv2 k" "pool2 (clear_buffers k) = pool2 k"
    "fc (clear_buffers k) = fc k" "training (clear_buffers k) = training k"
    "debug (clear_buffers k) = debug k"
    "bn1 (clear_buffers k) = clear_stats (bn1 k)" "bn2 (clear_buffers k) = clear_stats (bn2 k)" for k
    by (simp_all add: clear_buffers_def)
  with assms show "conv1 m2 = conv1 m" "pool1 m2 = pool1 m" "conv2 m2 = conv2 m" "pool2 m2 = pool2 m"
    "fc m2 = fc m" "training m2 = training m" "debug m2 = debug m"
    "clear_stats (bn1 m2) = clear_stats (bn1 m)" "clear_stats (bn2 m2) = clear_stats (bn2 m)"
    by metis+
qed

lemma forward_clear_buffers:
  assumes "forward m x = Inr (out, m')"
  shows "clear_buffers m' = clear_buffers m"
proof -
  from forward_InrD[OF assms] obtain c1 n1 b1 c2 n2 b2 where
    b1: "batchnorm2d_apply (training m) (bn1 m) c1 = Inr (n1, b1)" and
    b2: "batchnorm2d_apply (training m) (bn2 m) c2 = Inr (n2, b2)" and
    m': "m' = m\<lparr>bn1 := b1, bn2 := b2\<rparr>" by blast
  show ?thesis
    using batchnorm2d_apply_stats(1)[OF b1] batchnorm2d_apply_stats(1)[OF b2]
    by (simp add: m' clear_buffers_def)
qed

lemma forward_eval_mode:
  assumes "forward m x = Inr (out, m')" "\<not> training m"
  shows "m' = m"
proof -
  from forward_InrD[OF assms(1)] obtain c1 n1 b1 c2 n2 b2 where
    b1: "batchnorm2d_apply (training m) (bn1 m) c1 = Inr (n1, b1)" and
    b2: "batchnorm2d_apply (training m) (bn2 m) c2 = Inr (n2, b2)" and
    m': "m' = m\<lparr>bn1 := b1, bn2 := b2\<rparr>" by blast
  show ?thesis
    using batchnorm2d_apply_stats(2)[OF b1] batchnorm2d_apply_stats(2)[OF b2] assms(2)
    by (simp add: m')
qed

lemma forward_training_counts:
  assumes "forward m x = Inr (out, m')" "training m"
  shows "num_batches_tracked (bn1 m') = num_batches_tracked (bn1 m) + 1"
    and "num_batches_tracked (bn2 m') = num_batches_tracked (bn2 m) + 1"
proof -
  from forward_InrD[OF assms(1)] obtain c1 n1 b1 c2 n2 b2 where
    b1: "batchnorm2d_apply (training m) (bn1 m) c1 = Inr (n1, b1)" and
    b2: "batchnorm2d_apply (training m) (bn2 m) c2 = Inr (n2, b2)" and
    m': "m' = m\<lparr>bn1 := b1, bn2 := b2\<rparr>" by blast
  show "num_batches_tracked (bn1 m') = num_batches_tracked (bn1 m) + 1"
    using batchnorm2d_apply_stats(3)[OF b1] assms(2) by (simp add: m')
  show "num_batches_tracked (bn2 m') = num_batches_tracked (bn2 m) + 1"
    using batchnorm2d_apply_stats(3)[OF b2] assms(2) by (simp add: m')
qed

lemma outputs_indep:
  assumes t: "training m" and c: "clear_buffers m2 = clear_buffers m"
  shows "outputs m2 x = outputs m x"
proof -
  note e = clear_buffers_eqD[OF c]
  note i1 = batchnorm2d_apply_indep[OF e(8)]
  note i2 = batchnorm2d_apply_indep[OF e(9)]
  have t2: "training m2" using e(6) t by simp
  show ?thesis
  proof (cases "conv2d_apply (conv1 m) x")
    case (Inl a)
    then show ?thesis by (simp add: outputs_def forward_def e)
  next
    case c1: (Inr c1)
    show ?thesis
    proof (cases "batchnorm2d_apply True (bn1 m) c1")
      case (Inl a)
      with i1(1)[OF Inl] c1 show ?thesis by (simp add: outputs_def forward_def e t t2)
    next
      case (Inr yb)
      obtain n1 b1 where yb: "yb = (n1, b1)" by (cases yb)
      from i1(2)[OF Inr[unfolded yb]] obtain b1' where
        n1': "batchnorm2d_apply True (bn1 m2) c1 = Inr (n1, b1')" by blast
      show ?thesis
      proof (cases "maxpool2d_apply (pool1 m) (relu4 n1)")
        case (Inl a)
        with c1 Inr yb n1' show ?thesis by (simp add: outputs_def forward_def e t t2)
      next
        case p1: (Inr p1)
        show ?thesis
        proof (cases "conv2d_apply (conv2 m) p1")
          case (Inl a)
          with c1 Inr yb n1' p1 show ?thesis by (simp add: outputs_def forward_def e t t2)
        next
          case c2: (Inr c2)
          show ?thesis
          proof (cases "batchnorm2d_apply True (bn2 m) c2")
            case (Inl a)
            with i2(1)[OF Inl] c1 Inr yb n1' p1 c2 show ?thesis
              by (simp add: outputs_def forward_def e t t2)
          next
            case n2: (Inr zb)
            obtain n2 b2 where zb: "zb = (n2, b2)" by (cases zb)
            from i2(2)[OF n2[unfolded zb]] obtain b2' where
              n2': "batchnorm2d_apply True (bn2 m2) c2 = Inr (n2, b2')" by blast
            from c1 Inr yb n1' p1 c2 n2 zb n2' show ?thesis
              by (simp add: outputs_def forward_def e t t2 split: sum.splits)
          qed
        qed
      qed
    qed
  qed
qed

lemma outputs_after_forward:
  assumes "forward m x = Inr (out, m')"
  shows "outputs m' x' = outputs m x'"
proof (cases "training m")
  case True
  from outputs_indep[OF True forward_clear_buffers[OF assms]] show ?thesis .
next
  case False
  with forward_eval_mode[OF assms] show ?thesis by simp
qed


lemma sum_exp_pos: "r \<noteq> [] \<Longrightarrow> 0 < (\<Sum>u \<leftarrow> r. exp (u::real))"
proof (induction r)
  case Nil
  then show ?case by simp
next
  case (Cons a r)
  have "0 \<le> (\<Sum>u \<leftarrow> r. exp u)" by (rule sum_list_nonneg) auto
  then show ?case by (simp add: add_pos_nonneg)
qed

lemma exp_le_sum_exp: "v \<in> set r \<Longrightarrow> exp (v::real) \<le> (\<Sum>u \<leftarrow> r. exp u)"
proof (induction r)
  case Nil
  then show ?case by simp
next
  case (Cons a r)
  have nn: "0 \<le> (\<Sum>u \<leftarrow> r. exp u)" by (rule sum_list_nonneg) auto
  show ?case
  proof (cases "v = a")
    case True
    with nn show ?thesis by simp
  next
    case False
    with Cons have "exp v \<le> (\<Sum>u \<leftarrow> r. exp u)" by simp
    then show ?thesis by (simp add: add_increasing)
  qed
qed

lemma log_softmax_row_sum:
  assumes "r \<noteq> []"
  shows "(\<Sum>v \<leftarrow> log_softmax_row r. exp v) = 1"
proof -
  define S where "S = (\<Sum>u \<leftarrow> r. exp u)"
  have S: "0 < S" unfolding S_def by (rule sum_exp_pos[OF assms])
  have "(\<Sum>v \<leftarrow> log_softmax_row r. exp v) = (\<Sum>v \<leftarrow> r. exp v * inverse S)"
    using S by (simp add: log_softmax_row_def S_def[symmetric] comp_def exp_diff divide_inverse)
  also have "\<dots> = S * inverse S"
    by (simp add: sum_list_mult_const S_def)
  also have "\<dots> = 1" using S by simp
  finally show ?thesis .
qed

lemma log_softmax_row_nonpos:
  assumes "v \<in> set (log_softmax_row r)"
  shows "v \<le> 0"
proof -
  from assms obtain u where u: "u \<in> set r" "v = u - ln (\<Sum>u \<leftarrow> r. exp u)"
    by (auto simp: log_softmax_row_def)
  then have "r \<noteq> []" by auto
  from sum_exp_pos[OF this] exp_le_sum_exp[OF u(1)] have "u \<le> ln (\<Sum>u \<leftarrow> r. exp u)"
    by (simp add: ln_ge_iff)
  with u show ?thesis by simp
qed

lemma forward_rows:
  assumes "forward m x = Inr (out, m')"
  shows "\<exists>f. has_shape2 f (length x) (out_features (fc m)) \<and> out = log_softmax (relu2 f)"
proof -
  from forward_InrD[OF assms] obtain c1 n1 b1 p1 c2 n2 b2 p2 f where
    s: "conv2d_apply (conv1 m) x = Inr c1"
       "batchnorm2d_apply (training m) (bn1 m) c1 = Inr (n1, b1)"
       "maxpool2d_apply (pool1 m) (relu4 n1) = Inr p1"
       "conv2d_apply (conv2 m) p1 = Inr c2"
       "batchnorm2d_apply (training m) (bn2 m) c2 = Inr (n2, b2)"
       "maxpool2d_apply (pool2 m) (relu4 n2) = Inr p2"
       "linear_apply (fc m) (flatten p2) = Inr f"
       "out = log_softmax (relu2 f)" by blast
  have "length c1 = length x" using s(1) by (auto simp: conv2d_apply_def split: if_splits)
  moreover have "length n1 = length c1"
    using s(2) by (auto simp: batchnorm2d_apply_def bn_normalize_def Let_def split: if_splits)
  moreover have "length p1 = length n1"
    using s(3) by (auto simp: maxpool2d_apply_def relu4_def split: if_splits)
  moreover have "length c2 = length p1" using s(4) by (auto simp: conv2d_apply_def split: if_splits)
  moreover have "length n2 = length c2"
    using s(5) by (auto simp: batchnorm2d_apply_def bn_normalize_def Let_def split: if_splits)
  moreover have "length p2 = length n2"
    using s(6) by (auto simp: maxpool2d_apply_def relu4_def split: if_splits)
  moreover have "has_shape2 f (length p2) (out_features (fc m))"
    using s(7) by (auto simp: linear_apply_def flatten_def has_shape2_def split: if_splits)
  ultimately show ?thesis using s(8) by auto
qed

lemma forward_rows_sum_one:
  assumes "forward m x = Inr (out, m')" "0 < out_features (fc m)" "row \<in> set out"
  shows "(\<Sum>v \<leftarrow> row. exp v) = 1"
proof -
  from forward_rows[OF assms(1)] obtain f where
    f: "has_shape2 f (length x) (out_features (fc m))" "out = log_softmax (relu2 f)" by blast
  with assms(3) obtain r where r: "r \<in> set f" "row = log_softmax_row (map relu r)"
    by (auto simp: log_softmax_def relu2_def)
  with f(1) assms(2) have "map relu r \<noteq> []" by (auto simp: has_shape2_def)
  from log_softmax_row_sum[OF this] r show ?thesis by simp
qed

lemma forward_rows_nonpos:
  assumes "forward m x = Inr (out, m')" "row \<in> set out" "v \<in> set row"
  shows "v \<le> 0"
proof -
  from forward_rows[OF assms(1)] obtain f where "out = log_softmax (relu2 f)" by blast
  with assms(2) obtain r where "row = log_softmax_row r" by (auto simp: log_softmax_def)
  with log_softmax_row_nonpos assms(3) show ?thesis by blast
qed

lemma black_batch_shape: "has_shape4 black_batch 1 1 28 28"
  by (simp add: black_batch_def black_image_def has_shape4_def has_shape3_def has_shape2_def)

lemma example_model_architecture: "architecture example_model"
  by (simp add: example_model_def architecture_def ConvNetModel_init_def
      BatchNorm2d_def MaxPool2d_def)

section \<open>The forward pass\<close>

text \<open>
  Claim C2. For a batch of shape \<open>(B, 1, 28, 28)\<close> with \<open>B \<ge> 1\<close> the forward pass
  returns, and its output has shape \<open>(B, 10)\<close>. On the way, the spatial sizes follow
  the size formula stage by stage, 28 to 26 to 13 to 6 to 3, so that the flattened rows
  entering the linear layer have \<open>12 * 3 * 3 = 108\<close> features, the number the linear
  layer expects.
\<close>

theorem forward_output_shape:
  assumes "architecture m" and "has_shape4 x B 1 28 28" and "1 \<le> B"
  shows "\<exists>c1 n1 b1 p1 c2 n2 b2 p2 f out m'.
           conv2d_apply (conv1 m) x = Inr c1 \<and>
           has_shape4 c1 B 6 (out_size 28 0 3 1) (out_size 28 0 3 1) \<and> out_size 28 0 3 1 = 26 \<and>
           batchnorm2d_apply (training m) (bn1 m) c1 = Inr (n1, b1) \<and>
           maxpool2d_apply (pool1 m) (relu4 n1) = Inr p1 \<and>
           has_shape4 p1 B 6 (out_size 26 0 2 2) (out_size 26 0 2 2) \<and> out_size 26 0 2 2 = 13 \<and>
           conv2d_apply (conv2 m) p1 = Inr c2 \<and>
           has_shape4 c2 B 12 (out_size 13 0 3 2) (out_size 13 0 3 2) \<and> out_size 13 0 3 2 = 6 \<and>
           batchnorm2d_apply (training m) (bn2 m) c2 = Inr (n2, b2) \<and>
           maxpool2d_apply (pool2 m) (relu4 n2) = Inr p2 \<and>
           has_shape4 p2 B 12 (out_size 6 0 2 2) (out_size 6 0 2 2) \<and> out_size 6 0 2 2 = 3 \<and>
           has_shape2 (flatten p2) B (12 * 3 * 3) \<and> 12 * 3 * 3 = (108::nat) \<and>
           in_features (fc m) = 108 \<and>
           forward m x = Inr (out, m') \<and> has_shape2 out B 10"
proof -
  from assms(3) have B: "0 < B" by simp
  from forward_stages[OF assms(1,2) B] obtain c1 n1 b1 p1 c2 n2 b2 p2 f where
    s: "conv2d_apply (conv1 m) x = Inr c1" "has_shape4 c1 B 6 26 26"
       "batchnorm2d_apply (training m) (bn1 m) c1 = Inr (n1, b1)"
       "maxpool2d_apply (pool1 m) (relu4 n1) = Inr p1" "has_shape4 p1 B 6 13 13"
       "conv2d_apply (conv2 m) p1 = Inr c2" "has_shape4 c2 B 12 6 6"
       "batchnorm2d_apply (training m) (bn2 m) c2 = Inr (n2, b2)"
       "maxpool2d_apply (pool2 m) (relu4 n2) = Inr p2" "has_shape4 p2 B 12 3 3"
       "has_shape2 (flatten p2) B 108" "has_shape2 f B 10"
       "forward m x = Inr (log_softmax (relu2 f), m\<lparr>bn1 := b1, bn2 := b2\<rparr>)"
    by blast
  have "has_shape2 (log_softmax (relu2 f)) B 10"
    by (rule log_softmax_shape[OF relu2_shape[OF s(12)]])
  moreover have "in_features (fc m) = 108" using assms(1) by (simp add: architecture_def)
  ultimately show ?thesis using s by (simp add: out_size_def)
qed

theorem forward_output_shape_witness:
  "architecture example_model \<and> has_shape4 black_batch 1 1 28 28 \<and> (1::nat) \<le> 1 \<and>
   (\<exists>out m'. forward example_model black_batch = Inr (out, m') \<and> has_shape2 out 1 10)"
  using forward_output_shape[OF example_model_architecture black_batch_shape]
    example_model_architecture black_batch_shape
  by auto

text \<open>
  In the exact arithmetic of the embedding every row of the output, exponentiated, sums
  to one, and the forward pass returns on every batch of 28 by 28 grayscale images. The
  code computes in 32-bit floating point, where the sums are one up to rounding only;
  the embedding has no floating-point arithmetic, and the lemma says nothing about the
  rounded sums.
\<close>

lemma forward_rows_exp_sum_one:
  assumes "architecture m"
  shows "(1 \<le> B \<and> has_shape4 x B 1 28 28 \<longrightarrow>
            (\<exists>out m'. forward m x = Inr (out, m') \<and> length out = B)) \<and>
         (\<forall>out m'. forward m x = Inr (out, m') \<longrightarrow>
            (\<forall>row \<in> set out. length row = 10 \<and> (\<Sum>v \<leftarrow> row. exp v) = 1))"
proof (intro conjI impI allI ballI)
  assume "1 \<le> B \<and> has_shape4 x B 1 28 28"
  then have B: "0 < B" and x: "has_shape4 x B 1 28 28" by simp_all
  from forward_stages[OF assms x B] obtain f b1 b2 where
    "has_shape2 f B 10" "forward m x = Inr (log_softmax (relu2 f), m\<lparr>bn1 := b1, bn2 := b2\<rparr>)"
    by blast
  then show "\<exists>out m'. forward m x = Inr (out, m') \<and> length out = B"
    by (auto simp: has_shape2_def log_softmax_def relu2_def)
next
  fix out m' row
  assume f: "forward m x = Inr (out, m')" and row: "row \<in> set out"
  from assms have o: "out_features (fc m) = 10" by (simp add: architecture_def)
  from forward_rows[OF f] o obtain g where "has_shape2 g (length x) 10" "out = log_softmax (relu2 g)"
    by auto
  with row show "length row = 10"
    by (auto simp: has_shape2_def log_softmax_def log_softmax_row_def relu2_def)
  from o have "0 < out_features (fc m)" by simp
  from forward_rows_sum_one[OF f this row] show "(\<Sum>v \<leftarrow> row. exp v) = 1" .
qed

lemma parameters_clear_buffers:
  assumes "clear_buffers m2 = clear_buffers m"
  shows "parameters m2 = parameters m"
  using clear_buffers_eqD[OF assms]
    clear_stats_eqD[of "bn1 m2" "bn1 m"] clear_stats_eqD[of "bn2 m2" "bn2 m"]
  by (simp add: parameters_def)

lemma outputs_InrD: "outputs m x = Inr out \<Longrightarrow> \<exists>m'. forward m x = Inr (out, m')"
  by (auto simp: outputs_def split: sum.splits)

lemma outputs_forward: "forward m x = Inr (out, m') \<Longrightarrow> outputs m x = Inr out"
  by (simp add: outputs_def)

text \<open>
  Claim C9. Two consecutive forward passes on the same batch give the same output. The
  first pass may move the buffers of the normalisation layers, so the second pass starts
  from the model that the first one left; it returns the same output all the same, and
  the learnable parameters are those of the start throughout.
\<close>

theorem forward_twice_same_output:
  assumes "forward m x = Inr (out, m1)"
  shows "\<exists>m2. forward m1 x = Inr (out, m2) \<and>
           parameters m1 = parameters m \<and> parameters m2 = parameters m"
proof -
  have "outputs m1 x = Inr out"
    using outputs_after_forward[OF assms, of x] outputs_forward[OF assms] by simp
  from outputs_InrD[OF this] obtain m2 where m2: "forward m1 x = Inr (out, m2)" by blast
  have p1: "parameters m1 = parameters m"
    by (rule parameters_clear_buffers[OF forward_clear_buffers[OF assms]])
  have "parameters m2 = parameters m1"
    by (rule parameters_clear_buffers[OF forward_clear_buffers[OF m2]])
  with m2 p1 show ?thesis by simp
qed

theorem forward_twice_same_output_witness:
  "\<exists>out m1 m2. forward example_model black_batch = Inr (out, m1) \<and>
      forward m1 black_batch = Inr (out, m2) \<and>
      parameters m1 = parameters example_model \<and> parameters m2 = parameters example_model"
proof -
  from forward_stages[OF example_model_architecture black_batch_shape]
  obtain out m1 where f: "forward example_model black_batch = Inr (out, m1)" by auto
  from forward_twice_same_output[OF f] f show ?thesis by blast
qed

section \<open>Batches\<close>

lemma chunks_Nil [simp]: "chunks n [] = []"
  by (subst chunks.simps) simp

lemma chunks_zero [simp]: "chunks 0 xs = []"
  by (subst chunks.simps) simp

lemma chunks_step: "0 < n \<Longrightarrow> xs \<noteq> [] \<Longrightarrow> chunks n xs = take n xs # chunks n (drop n xs)"
  by (subst chunks.simps) simp

lemma concat_chunks: "0 < n \<Longrightarrow> concat (chunks n xs) = xs"
proof (induction n xs rule: chunks.induct)
  case (1 n xs)
  show ?case
  proof (cases "xs = []")
    case True
    then show ?thesis by simp
  next
    case False
    with 1 show ?thesis by (simp add: chunks_step)
  qed
qed

lemma chunks_nonempty: "c \<in> set (chunks n xs) \<Longrightarrow> c \<noteq> [] \<and> set c \<subseteq> set xs"
proof (induction n xs rule: chunks.induct)
  case (1 n xs)
  show ?case
  proof (cases "n = 0 \<or> xs = []")
    case True
    with 1(2) show ?thesis by auto
  next
    case False
    then have n: "0 < n" and xs: "xs \<noteq> []" by simp_all
    from 1(2) have "c = take n xs \<or> c \<in> set (chunks n (drop n xs))"
      by (simp add: chunks_step[OF n xs])
    then show ?thesis
    proof
      assume "c = take n xs"
      with n xs show ?thesis by (auto dest: in_set_takeD)
    next
      assume "c \<in> set (chunks n (drop n xs))"
      with 1(1) False have "c \<noteq> [] \<and> set c \<subseteq> set (drop n xs)" by simp
      then show ?thesis by (auto dest: in_set_dropD)
    qed
  qed
qed



lemma div_add_self: "0 < (n::nat) \<Longrightarrow> (a + n) div n = Suc (a div n)"
  by simp

lemma ceil_div_step:
  assumes "0 < (n::nat)" "0 < k"
  shows "(k + n - 1) div n = Suc ((k - n + n - 1) div n)"
proof (cases "n \<le> k")
  case True
  then have "k + n - 1 = (k - n + n - 1) + n" using assms by arith
  then show ?thesis by (simp only: div_add_self[OF assms(1)])
next
  case False
  then have a: "k - n + n - 1 = n - 1" and b: "k + n - 1 = (k - 1) + n" using assms by arith+
  have c: "k - 1 < n" using False by arith
  have "(k + n - 1) div n = Suc ((k - 1) div n)" by (simp only: b div_add_self[OF assms(1)])
  also have "\<dots> = Suc 0" using c by simp
  finally have "(k + n - 1) div n = Suc 0" .
  moreover have "(n - 1) div n = 0" using assms(1) by simp
  ultimately show ?thesis by (simp only: a)
qed

lemma length_chunks: "0 < n \<Longrightarrow> length (chunks n xs) = (length xs + n - 1) div n"
proof (induction n xs rule: chunks.induct)
  case (1 n xs)
  show ?case
  proof (cases "xs = []")
    case True
    with 1(2) show ?thesis by simp
  next
    case False
    with 1(2) have "\<not> (n = 0 \<or> xs = [])" by simp
    from 1(1)[OF this 1(2)]
    have ih: "length (chunks n (drop n xs)) = (length xs - n + n - 1) div n" by simp
    from False have k: "0 < length xs" by simp
    have "length (chunks n xs) = Suc (length (chunks n (drop n xs)))"
      by (simp only: chunks_step[OF 1(2) False] list.size)
    with ih ceil_div_step[OF 1(2) k] show ?thesis by (simp only:)
  qed
qed


section \<open>The evaluation loop: what it computes\<close>

lemma batch_loss_cong:
  assumes "\<And>x. outputs m1 x = outputs m x"
  shows "batch_loss lf m1 b = batch_loss lf m b"
  by (simp add: batch_loss_def assms)

lemma predictions_cong:
  assumes "\<And>x. outputs m1 x = outputs m x"
  shows "predictions m1 bs = predictions m bs"
  by (simp add: predictions_def assms)

lemma predictions_Cons:
  "outputs m X = Inr pred \<Longrightarrow> predictions m ((X, y) # bs) = zip pred y @ predictions m bs"
  by (simp add: predictions_def)

lemma batch_loss_Inr:
  "outputs m X = Inr pred \<Longrightarrow> lf pred y = Inr loss \<Longrightarrow> batch_loss lf m (X, y) = loss"
  by (simp add: batch_loss_def)

lemma test_batches_result:
  assumes "test_batches lf bs m test_loss correct = Inr (test_loss', correct', m')"
  shows "test_loss' = test_loss + (\<Sum>b \<leftarrow> bs. batch_loss lf m b) \<and>
         correct' = correct + real (length (filter (\<lambda>(r, l). argmax r = l) (predictions m bs))) \<and>
         clear_buffers m' = clear_buffers m \<and>
         (training m \<longrightarrow>
            num_batches_tracked (bn1 m') = num_batches_tracked (bn1 m) + length bs \<and>
            num_batches_tracked (bn2 m') = num_batches_tracked (bn2 m) + length bs) \<and>
         (\<not> training m \<longrightarrow> m' = m) \<and>
         (\<forall>b \<in> set bs. \<exists>pred loss. outputs m (fst b) = Inr pred \<and> lf pred (snd b) = Inr loss)"
  using assms
proof (induction bs arbitrary: m test_loss correct)
  case Nil
  then show ?case by (simp add: predictions_def)
next
  case (Cons b bs)
  obtain X y where b: "b = (X, y)" by (cases b)
  from Cons.prems obtain pred m1 loss where
    f: "forward m X = Inr (pred, m1)" and l: "lf pred y = Inr loss" and
    r: "test_batches lf bs m1 (test_loss + loss) (correct + num_correct pred y)
          = Inr (test_loss', correct', m')"
    by (auto simp: b split: sum.splits prod.splits)
  note ih = Cons.IH[OF r]
  have o: "\<And>x. outputs m1 x = outputs m x" by (rule outputs_after_forward[OF f])
  have om: "outputs m X = Inr pred" by (rule outputs_forward[OF f])
  have cb: "clear_buffers m1 = clear_buffers m" by (rule forward_clear_buffers[OF f])
  have tr: "training m1 = training m" using clear_buffers_eqD(6)[OF cb] .
  have "test_loss' = test_loss + (\<Sum>b \<leftarrow> b # bs. batch_loss lf m b)"
    using ih batch_loss_Inr[of m X pred lf y loss, OF om l] by (simp add: b batch_loss_cong[OF o])
  moreover have "correct' = correct +
      real (length (filter (\<lambda>(r, l). argmax r = l) (predictions m (b # bs))))"
    using ih by (simp add: b predictions_Cons[OF om] predictions_cong[OF o] num_correct_def)
  moreover have "clear_buffers m' = clear_buffers m" using ih cb by simp
  moreover have "training m \<longrightarrow>
      num_batches_tracked (bn1 m') = num_batches_tracked (bn1 m) + length (b # bs) \<and>
      num_batches_tracked (bn2 m') = num_batches_tracked (bn2 m) + length (b # bs)"
    using ih tr forward_training_counts[OF f] by simp
  moreover have "\<not> training m \<longrightarrow> m' = m"
    using ih tr forward_eval_mode[OF f] by auto
  moreover have "\<forall>b \<in> set (b # bs). \<exists>pred loss.
      outputs m (fst b) = Inr pred \<and> lf pred (snd b) = Inr loss"
    using ih om l by (simp add: b o)
  ultimately show ?case by blast
qed


lemma is_index_of_max_iff:
  "is_index_of_max r l \<longleftrightarrow> l < length r \<and> (\<forall>j < length r. r ! j \<le> r ! l) \<and> (\<forall>j < l. r ! j < r ! l)"
  by (auto simp: is_index_of_max_def list_all_length)

lemma argmax_is_index_of_max: "r \<noteq> [] \<Longrightarrow> is_index_of_max r (argmax r)"
proof (induction r)
  case Nil
  then show ?case by simp
next
  case (Cons v vs)
  show ?case
  proof (cases "\<forall>u \<in> set vs. u \<le> v")
    case True
    then have "\<forall>j < length (v # vs). (v # vs) ! j \<le> v"
      by (auto simp: nth_Cons split: nat.splits)
    with True show ?thesis by (simp add: is_index_of_max_iff)
  next
    case False
    then obtain u where u: "u \<in> set vs" "v < u" by auto
    then have "vs \<noteq> []" by auto
    from Cons.IH[OF this] have ih: "argmax vs < length vs"
      "\<forall>j < length vs. vs ! j \<le> vs ! argmax vs" "\<forall>j < argmax vs. vs ! j < vs ! argmax vs"
      by (simp_all add: is_index_of_max_iff)
    from u(1) obtain i where "i < length vs" "vs ! i = u" by (auto simp: in_set_conv_nth)
    with ih(2) u(2) have v: "v < vs ! argmax vs" by force
    have "\<forall>j < length (v # vs). (v # vs) ! j \<le> vs ! argmax vs"
      using ih(2) v by (auto simp: nth_Cons split: nat.splits)
    moreover have "\<forall>j < Suc (argmax vs). (v # vs) ! j < vs ! argmax vs"
      using ih(3) v by (auto simp: nth_Cons split: nat.splits)
    moreover have "argmax (v # vs) = Suc (argmax vs)" using False by simp
    ultimately show ?thesis using ih(1) by (simp add: is_index_of_max_iff del: argmax.simps)
  qed
qed

lemma is_index_of_max_unique:
  assumes "is_index_of_max r l" "is_index_of_max r k"
  shows "l = k"
proof (rule ccontr)
  assume "l \<noteq> k"
  then consider "l < k" | "k < l" by arith
  then show False
  proof cases
    case 1
    with assms have "r ! l < r ! k" "r ! k \<le> r ! l" by (auto simp: is_index_of_max_iff)
    then show False by simp
  next
    case 2
    with assms have "r ! k < r ! l" "r ! l \<le> r ! k" by (auto simp: is_index_of_max_iff)
    then show False by simp
  qed
qed

lemma argmax_eq_iff: "r \<noteq> [] \<Longrightarrow> argmax r = l \<longleftrightarrow> is_index_of_max r l"
  using argmax_is_index_of_max is_index_of_max_unique by blast

lemma batches_cases:
  assumes "b \<in> set (batches dl)"
  shows "fst b \<noteq> [] \<and> length (snd b) = length (fst b) \<and>
         set (fst b) \<subseteq> fst ` set (dataset dl) \<and> set (snd b) \<subseteq> snd ` set (dataset dl)"
proof -
  from assms obtain c where c: "c \<in> set (chunks (batch_size dl) (dataset dl))" "b = collate c"
    by (auto simp: batches_def)
  from chunks_nonempty[OF c(1)] c(2) show ?thesis
    by (auto simp: collate_def)
qed

lemma labels_of_batches:
  "0 < batch_size dl \<Longrightarrow> concat (map snd (batches dl)) = map snd (dataset dl)"
  using concat_chunks[of "batch_size dl" "dataset dl"]
  by (simp add: batches_def collate_def comp_def map_concat[symmetric])

lemma length_batches: "0 < batch_size dl \<Longrightarrow> length (batches dl) = len_dataloader dl"
  by (simp add: batches_def len_dataloader_def length_chunks)

lemma outputs_length:
  assumes "outputs m X = Inr pred"
  shows "length pred = length X"
proof -
  from outputs_InrD[OF assms] obtain m' where "forward m X = Inr (pred, m')" by blast
  from forward_rows[OF this] show ?thesis
    by (auto simp: has_shape2_def log_softmax_def relu2_def)
qed


lemma test_loop_InrD:
  assumes "test_loop dl m lf = Inr (r, m')"
  shows "\<exists>test_loss correct.
           test_batches lf (batches dl) m 0 0 = Inr (test_loss, correct, m') \<and>
           0 < len_dataloader dl \<and> dataset dl \<noteq> [] \<and> 0 < batch_size dl \<and>
           accuracy r = correct / real (length (dataset dl)) \<and>
           avg_loss r = test_loss / real (len_dataloader dl)"
proof -
  from assms obtain test_loss correct where
    t: "test_batches lf (batches dl) m 0 0 = Inr (test_loss, correct, m')" and
    n: "len_dataloader dl \<noteq> 0" "length (dataset dl) \<noteq> 0" and
    r: "r = \<lparr>accuracy = correct / real (length (dataset dl)),
             avg_loss = test_loss / real (len_dataloader dl)\<rparr>"
    by (auto simp: test_loop_def split: sum.splits prod.splits if_splits)
  from n(1) have "0 < batch_size dl"
    by (cases "batch_size dl = 0") (simp_all add: len_dataloader_def)
  with t n r show ?thesis by simp
qed

lemma outputs_row_length:
  assumes "outputs m X = Inr pred" "row \<in> set pred"
  shows "length row = out_features (fc m)"
proof -
  from outputs_InrD[OF assms(1)] obtain m' where "forward m X = Inr (pred, m')" by blast
  from forward_rows[OF this] assms(2) show ?thesis
    by (auto simp: has_shape2_def log_softmax_def log_softmax_row_def relu2_def)
qed

lemma predictions_labels:
  assumes "\<forall>b \<in> set bs. (\<exists>pred. outputs m (fst b) = Inr pred) \<and> length (snd b) = length (fst b)"
  shows "map snd (predictions m bs) = concat (map snd bs)"
  using assms
proof (induction bs)
  case Nil
  then show ?case by (simp add: predictions_def)
next
  case (Cons b bs)
  obtain X y where b: "b = (X, y)" by (cases b)
  from Cons.prems b obtain pred where p: "outputs m X = Inr pred" and l: "length y = length X"
    by auto
  from outputs_length[OF p] l have "map snd (zip pred y) = y" by (simp add: map_snd_zip)
  with Cons p show ?case by (simp add: b predictions_Cons[OF p])
qed

lemma predictions_rows:
  assumes "(row, l) \<in> set (predictions m bs)"
  shows "length row = out_features (fc m)"
proof -
  from assms obtain b where b: "b \<in> set bs"
    "(row, l) \<in> set (case outputs m (fst b) of Inl e \<Rightarrow> [] | Inr pred \<Rightarrow> zip pred (snd b))"
    by (auto simp: predictions_def)
  show ?thesis
  proof (cases "outputs m (fst b)")
    case (Inl e)
    with b(2) show ?thesis by simp
  next
    case (Inr pred)
    with b(2) have "row \<in> set pred" by (auto dest: set_zip_leftD)
    from outputs_row_length[OF Inr this] show ?thesis .
  qed
qed

lemma filter_argmax:
  assumes "0 < out_features (fc m)"
  shows "filter (\<lambda>(r, l). argmax r = l) (predictions m bs)
       = filter (\<lambda>(r, l). is_index_of_max r l) (predictions m bs)"
proof (rule filter_cong[OF refl])
  fix p assume p: "p \<in> set (predictions m bs)"
  obtain r l where rl: "p = (r, l)" by (cases p)
  with p predictions_rows[of r l m bs] assms have "r \<noteq> []" by auto
  from argmax_eq_iff[OF this] rl
  show "(case p of (r, l) \<Rightarrow> argmax r = l) = (case p of (r, l) \<Rightarrow> is_index_of_max r l)" by simp
qed

text \<open>
  Claim C6. When the evaluation loop reports, there was at least one batch; the rows of
  the outputs pair up with the labels of the data set, one per example; the accuracy is
  the number of rows whose label is the index of the maximum of the row, divided by the
  number of examples; the average loss is the sum of the losses of the batches divided
  by the number of batches. The outputs and losses are those of the model the loop
  started with: the buffers that the loop moves do not enter them. The hypothesis on
  the linear layer says that a row has at least one entry, as the ten-class model has.
\<close>

theorem test_loop_report:
  assumes "test_loop dl m lf = Inr (r, m')" and "0 < out_features (fc m)"
  shows "batches dl \<noteq> [] \<and>
         map snd (predictions m (batches dl)) = map snd (dataset dl) \<and>
         accuracy r =
           real (length (filter (\<lambda>(row, l). is_index_of_max row l) (predictions m (batches dl))))
             / real (length (dataset dl)) \<and>
         avg_loss r = (\<Sum>b \<leftarrow> batches dl. batch_loss lf m b) / real (length (batches dl))"
proof -
  from test_loop_InrD[OF assms(1)] obtain test_loss correct where
    t: "test_batches lf (batches dl) m 0 0 = Inr (test_loss, correct, m')" and
    n: "0 < len_dataloader dl" "0 < batch_size dl" and
    r: "accuracy r = correct / real (length (dataset dl))"
       "avg_loss r = test_loss / real (len_dataloader dl)"
    by blast
  note res = test_batches_result[OF t]
  have len: "length (batches dl) = len_dataloader dl" by (rule length_batches[OF n(2)])
  with n(1) have "batches dl \<noteq> []" by auto
  moreover have "map snd (predictions m (batches dl)) = map snd (dataset dl)"
  proof -
    have "\<forall>b \<in> set (batches dl).
        (\<exists>pred. outputs m (fst b) = Inr pred) \<and> length (snd b) = length (fst b)"
      using res batches_cases[of _ dl] by blast
    from predictions_labels[OF this] labels_of_batches[OF n(2)] show ?thesis by simp
  qed
  moreover have "accuracy r =
      real (length (filter (\<lambda>(row, l). is_index_of_max row l) (predictions m (batches dl))))
        / real (length (dataset dl))"
    using res r(1) by (simp add: filter_argmax[OF assms(2)])
  moreover have "avg_loss r = (\<Sum>b \<leftarrow> batches dl. batch_loss lf m b) / real (length (batches dl))"
    using res r(2) len by simp
  ultimately show ?thesis by blast
qed


section \<open>The evaluation loop: when it reports, and bounds\<close>

lemma nll_loss_total:
  assumes "length pred = length y" "\<forall>r \<in> set pred. length r = 10" "\<forall>l \<in> set y. l < 10"
  shows "\<exists>loss. nll_loss pred y = Inr loss"
proof -
  have "\<not> length r \<le> l" if "(r, l) \<in> set (zip pred y)" for r l
    using set_zip_leftD[OF that] set_zip_rightD[OF that] assms(2,3) by auto
  then have "\<not> (\<exists>(r, l) \<in> set (zip pred y). length r \<le> l)" by blast
  with assms(1) show ?thesis by (simp add: nll_loss_def)
qed

lemma nll_loss_nonneg:
  assumes "nll_loss pred y = Inr loss" "\<forall>row \<in> set pred. \<forall>v \<in> set row. v \<le> 0"
  shows "0 \<le> loss"
proof -
  from assms(1) have ok: "\<forall>(r, l) \<in> set (zip pred y). l < length r"
    and loss: "loss = - (\<Sum>(r, l) \<leftarrow> zip pred y. r ! l) / real (length y)"
    by (auto simp: nll_loss_def split: if_splits)
  have "(\<Sum>(r, l) \<leftarrow> zip pred y. r ! l) \<le> 0"
  proof (rule sum_list_nonpos)
    fix t assume "t \<in> set (map (\<lambda>(r, l). r ! l) (zip pred y))"
    then obtain r l where rl: "(r, l) \<in> set (zip pred y)" "t = r ! l" by auto
    from rl(1) ok have "l < length r" by auto
    moreover from rl(1) have "r \<in> set pred" by (rule set_zip_leftD)
    ultimately show "t \<le> 0" using assms(2) rl(2) by auto
  qed
  then show ?thesis by (simp add: loss divide_nonpos_nonneg)
qed

lemma architecture_clear_buffers:
  assumes "clear_buffers m2 = clear_buffers m"
  shows "architecture m2 = architecture m"
  using clear_buffers_eqD[OF assms]
    clear_stats_eqD[of "bn1 m2" "bn1 m"] clear_stats_eqD[of "bn2 m2" "bn2 m"]
  by (simp add: architecture_def)

lemma valid_batch_shape:
  assumes "valid_batch b"
  shows "has_shape4 (fst b) (length (fst b)) 1 28 28" "0 < length (fst b)"
  using assms by (auto simp: valid_batch_def has_shape4_def list_all_iff)

lemma forward_valid_batch:
  assumes "architecture m" "valid_batch (X, y)"
  shows "\<exists>pred m' loss. forward m X = Inr (pred, m') \<and> nll_loss pred y = Inr loss \<and>
           architecture m'"
proof -
  from valid_batch_shape[OF assms(2)]
  have x: "has_shape4 X (length X) 1 28 28" "0 < length X" by simp_all
  from forward_stages[OF assms(1) x] obtain f b1 b2 where
    f: "has_shape2 f (length X) 10"
       "forward m X = Inr (log_softmax (relu2 f), m\<lparr>bn1 := b1, bn2 := b2\<rparr>)" by blast
  have s: "has_shape2 (log_softmax (relu2 f)) (length X) 10"
    by (rule log_softmax_shape[OF relu2_shape[OF f(1)]])
  have "\<exists>loss. nll_loss (log_softmax (relu2 f)) y = Inr loss"
  proof (rule nll_loss_total)
    show "length (log_softmax (relu2 f)) = length y"
      using s assms(2) by (simp add: has_shape2_def valid_batch_def)
    show "\<forall>r \<in> set (log_softmax (relu2 f)). length r = 10" using s by (simp add: has_shape2_def)
    show "\<forall>l \<in> set y. l < 10" using assms(2) by (simp add: valid_batch_def list_all_iff)
  qed
  moreover have "architecture (m\<lparr>bn1 := b1, bn2 := b2\<rparr>)"
    using architecture_clear_buffers[OF forward_clear_buffers[OF f(2)]] assms(1) by simp
  ultimately show ?thesis using f(2) by blast
qed

lemma test_batches_total:
  assumes "architecture m" "\<forall>b \<in> set bs. valid_batch b"
  shows "\<exists>res. test_batches nll_loss bs m test_loss correct = Inr res"
  using assms
proof (induction bs arbitrary: m test_loss correct)
  case Nil
  then show ?case by simp
next
  case (Cons b bs)
  obtain X y where b: "b = (X, y)" by (cases b)
  with Cons.prems have "valid_batch (X, y)" by simp
  from forward_valid_batch[OF Cons.prems(1) this] obtain pred m' loss where
    f: "forward m X = Inr (pred, m')" "nll_loss pred y = Inr loss" "architecture m'" by blast
  from Cons.IH[OF f(3), of "test_loss + loss" "correct + num_correct pred y"] Cons.prems(2)
  show ?case by (simp add: b f)
qed

lemma valid_loader_batches:
  assumes "valid_loader dl" "b \<in> set (batches dl)"
  shows "valid_batch b"
proof -
  from assms(1) have v: "\<forall>ex \<in> set (dataset dl). has_shape3 (fst ex) 1 28 28 \<and> snd ex < 10"
    by (simp add: valid_loader_def valid_example_def list_all_iff)
  from batches_cases[OF assms(2)] v show ?thesis
    by (auto simp: valid_batch_def list_all_iff)
qed

lemma valid_loader_len:
  assumes "valid_loader dl"
  shows "0 < len_dataloader dl" "dataset dl \<noteq> []" "0 < batch_size dl"
proof -
  from assms show d: "dataset dl \<noteq> []" and n: "0 < batch_size dl"
    by (simp_all add: valid_loader_def)
  from d n have "chunks (batch_size dl) (dataset dl) \<noteq> []" by (simp add: chunks_step)
  then have "0 < length (chunks (batch_size dl) (dataset dl))" by simp
  then show "0 < len_dataloader dl"
    by (simp only: length_chunks[OF n] len_dataloader_def)
qed

lemma test_loop_total:
  assumes "architecture m" "valid_loader dl"
  shows "\<exists>r m'. test_loop dl m nll_loss = Inr (r, m')"
proof -
  from test_batches_total[OF assms(1), of "batches dl" 0 0] valid_loader_batches[OF assms(2)]
  obtain res where "test_batches nll_loss (batches dl) m 0 0 = Inr res" by blast
  with valid_loader_len[OF assms(2)] show ?thesis
    by (cases res) (auto simp: test_loop_def)
qed


lemma black_loader_valid: "valid_loader black_loader"
  by (simp add: valid_loader_def black_loader_def valid_example_def black_image_def
      has_shape3_def has_shape2_def)

theorem test_loop_report_witness:
  "\<exists>r m'. test_loop black_loader example_model nll_loss = Inr (r, m') \<and>
      0 < out_features (fc example_model) \<and>
      batches black_loader \<noteq> [] \<and>
      map snd (predictions example_model (batches black_loader)) = map snd (dataset black_loader) \<and>
      accuracy r =
        real (length (filter (\<lambda>(row, l). is_index_of_max row l)
                (predictions example_model (batches black_loader))))
          / real (length (dataset black_loader)) \<and>
      avg_loss r = (\<Sum>b \<leftarrow> batches black_loader. batch_loss nll_loss example_model b)
          / real (length (batches black_loader))"
proof -
  from test_loop_total[OF example_model_architecture black_loader_valid] obtain r m' where
    t: "test_loop black_loader example_model nll_loss = Inr (r, m')" by blast
  have o: "0 < out_features (fc example_model)"
    using example_model_architecture by (simp add: architecture_def)
  from test_loop_report[OF t o] t o show ?thesis by blast
qed

lemma batch_loss_nonneg:
  assumes "outputs m X = Inr pred" "nll_loss pred y = Inr loss"
  shows "0 \<le> batch_loss nll_loss m (X, y)"
proof -
  from outputs_InrD[OF assms(1)] obtain m' where f: "forward m X = Inr (pred, m')" by blast
  have "\<forall>row \<in> set pred. \<forall>v \<in> set row. v \<le> 0"
    using forward_rows_nonpos[OF f] by blast
  from nll_loss_nonneg[OF assms(2) this] batch_loss_Inr[of m X pred nll_loss y loss, OF assms]
  show ?thesis by simp
qed

text \<open>
  In the exact arithmetic of the embedding the evaluation loop reports on every
  non-empty data set of 28 by 28 grayscale images with labels among the ten classes,
  with an accuracy between zero and one and an average loss that is not negative. In
  32-bit floating point an overflow in the linear layer makes the loss not a number;
  the embedding has no floating-point arithmetic, and the lemma says nothing about
  that case.
\<close>

lemma test_loop_report_bounds:
  "(architecture m \<and> valid_loader dl \<longrightarrow> (\<exists>r m'. test_loop dl m nll_loss = Inr (r, m'))) \<and>
   (\<forall>r m'. test_loop dl m nll_loss = Inr (r, m') \<longrightarrow>
      0 \<le> accuracy r \<and> accuracy r \<le> 1 \<and> 0 \<le> avg_loss r)"
proof (intro conjI impI allI)
  assume "architecture m \<and> valid_loader dl"
  then show "\<exists>r m'. test_loop dl m nll_loss = Inr (r, m')"
    using test_loop_total by blast
next
  fix r m'
  assume a: "test_loop dl m nll_loss = Inr (r, m')"
  from test_loop_InrD[OF a] obtain test_loss correct where
    t: "test_batches nll_loss (batches dl) m 0 0 = Inr (test_loss, correct, m')" and
    n: "0 < len_dataloader dl" "dataset dl \<noteq> []" "0 < batch_size dl" and
    r: "accuracy r = correct / real (length (dataset dl))"
       "avg_loss r = test_loss / real (len_dataloader dl)"
    by blast
  note res = test_batches_result[OF t]
  let ?ps = "predictions m (batches dl)"
  have c: "correct = real (length (filter (\<lambda>(r, l). argmax r = l) ?ps))" using res by simp
  show "0 \<le> accuracy r" by (simp add: r(1) c)
  have "\<forall>b \<in> set (batches dl).
      (\<exists>pred. outputs m (fst b) = Inr pred) \<and> length (snd b) = length (fst b)"
    using res batches_cases[of _ dl] by blast
  from predictions_labels[OF this] labels_of_batches[OF n(3)]
  have "map snd ?ps = map snd (dataset dl)" by simp
  then have "length ?ps = length (dataset dl)" by (metis length_map)
  moreover have "length (filter (\<lambda>(r, l). argmax r = l) ?ps) \<le> length ?ps"
    by (rule length_filter_le)
  ultimately have "correct \<le> real (length (dataset dl))" by (simp add: c)
  with n(2) show "accuracy r \<le> 1" by (simp add: r(1))
  have "0 \<le> (\<Sum>b \<leftarrow> batches dl. batch_loss nll_loss m b)"
  proof (rule sum_list_nonneg)
    fix t assume "t \<in> set (map (batch_loss nll_loss m) (batches dl))"
    then obtain b where b: "b \<in> set (batches dl)" "t = batch_loss nll_loss m b" by auto
    with res obtain pred loss where
      "outputs m (fst b) = Inr pred" "nll_loss pred (snd b) = Inr loss" by blast
    from batch_loss_nonneg[OF this] b(2) show "0 \<le> t" by simp
  qed
  with res have "0 \<le> test_loss" by simp
  then show "0 \<le> avg_loss r" by (simp add: r(2))
qed

text \<open>
  Claim C10. On an empty data set the evaluation loop reports nothing: the loop body
  never runs and the division by the number of batches, which is zero, raises.
\<close>

theorem test_loop_empty_dataset:
  assumes "dataset dl = []"
  shows "test_loop dl m lf = Inl ZeroDivisionError"
  using assms by (simp add: test_loop_def batches_def len_dataloader_def)

theorem test_loop_empty_dataset_witness:
  "dataset \<lparr>dataset = [], batch_size = 64\<rparr> = [] \<and>
   test_loop \<lparr>dataset = [], batch_size = 64\<rparr> example_model nll_loss = Inl ZeroDivisionError"
  using test_loop_empty_dataset[of "\<lparr>dataset = [], batch_size = 64\<rparr>" example_model nll_loss]
  by simp

section \<open>The training loop\<close>

lemma parameters_set_parameters: "parameters (set_parameters p m) = p"
  by (simp add: parameters_def set_parameters_def)

lemma architecture_set_parameters: "architecture (set_parameters p m) = architecture m"
  by (simp add: architecture_def set_parameters_def)

lemma training_set_parameters: "training (set_parameters p m) = training m"
  by (simp add: set_parameters_def)

lemma counters_set_parameters:
  "num_batches_tracked (bn1 (set_parameters p m)) = num_batches_tracked (bn1 m)"
  "num_batches_tracked (bn2 (set_parameters p m)) = num_batches_tracked (bn2 m)"
  by (simp_all add: set_parameters_def)

lemma train_batch_InrD:
  assumes "train_batch fw lf s (X, y) = Inr s'"
  shows "\<exists>pred m1 loss.
           forward (ts_model s) X = Inr (pred, m1) \<and> lf pred y = Inr loss \<and>
           ts_model s' =
             set_parameters
               (fst (step fw (ts_opt s) (Some (gradient fw (ts_model s) X y)) (parameters m1))) m1 \<and>
           ts_grad s' = Some (gradient fw (ts_model s) X y) \<and>
           ts_opt s' = snd (step fw (ts_opt s) (Some (gradient fw (ts_model s) X y)) (parameters m1)) \<and>
           ts_trace s' =
             ts_trace s @ [ModelOutput, LossComputed, ZeroGrad, Backward, OptimizerStep]"
  using assms
  by (auto simp: train_batch_def model_call_def loss_call_def zero_grad_def loss_backward_def
      optimizer_step_def backward_def split: sum.splits prod.splits)

lemma train_batches_trace:
  assumes "train_batches fw lf bs s = Inr s'"
  shows "ts_trace s' = ts_trace s @
           concat (map (\<lambda>b. [ModelOutput, LossComputed, ZeroGrad, Backward, OptimizerStep]) bs) \<and>
         (bs \<noteq> [] \<longrightarrow> ts_grad s' \<noteq> None) \<and>
         training (ts_model s') = training (ts_model s) \<and>
         (training (ts_model s) \<longrightarrow>
            num_batches_tracked (bn1 (ts_model s')) =
              num_batches_tracked (bn1 (ts_model s)) + length bs \<and>
            num_batches_tracked (bn2 (ts_model s')) =
              num_batches_tracked (bn2 (ts_model s)) + length bs)"
  using assms
proof (induction bs arbitrary: s)
  case Nil
  then show ?case by simp
next
  case (Cons b bs)
  obtain X y where b: "b = (X, y)" by (cases b)
  from Cons.prems obtain s1 where
    s1: "train_batch fw lf s (X, y) = Inr s1" and r: "train_batches fw lf bs s1 = Inr s'"
    by (auto simp: b split: sum.splits)
  from train_batch_InrD[OF s1] obtain pred m1 p where
    f: "forward (ts_model s) X = Inr (pred, m1)" and
    m: "ts_model s1 = set_parameters p m1" and
    g: "ts_grad s1 = Some (gradient fw (ts_model s) X y)" and
    t: "ts_trace s1 = ts_trace s @ [ModelOutput, LossComputed, ZeroGrad, Backward, OptimizerStep]"
    by blast
  note ih = Cons.IH[OF r]
  have tr: "training (ts_model s1) = training (ts_model s)"
    using clear_buffers_eqD(6)[OF forward_clear_buffers[OF f]] by (simp add: m training_set_parameters)
  have "ts_trace s' = ts_trace s @
      concat (map (\<lambda>b. [ModelOutput, LossComputed, ZeroGrad, Backward, OptimizerStep]) (b # bs))"
    using ih t by simp
  moreover have "ts_grad s' \<noteq> None"
  proof (cases "bs = []")
    case True
    with r g show ?thesis by simp
  next
    case False
    with ih show ?thesis by simp
  qed
  moreover have "training (ts_model s') = training (ts_model s)" using ih tr by simp
  moreover have "training (ts_model s) \<longrightarrow>
      num_batches_tracked (bn1 (ts_model s')) =
        num_batches_tracked (bn1 (ts_model s)) + length (b # bs) \<and>
      num_batches_tracked (bn2 (ts_model s')) =
        num_batches_tracked (bn2 (ts_model s)) + length (b # bs)"
    using ih tr forward_training_counts[OF f] by (simp add: m counters_set_parameters)
  ultimately show ?case by simp
qed

lemma train_batches_parameters:
  assumes "train_batches fw lf bs s = Inr s'" "\<And>opt g p. fst (step fw opt g p) = p"
  shows "parameters (ts_model s') = parameters (ts_model s)"
  using assms(1)
proof (induction bs arbitrary: s)
  case Nil
  then show ?case by simp
next
  case (Cons b bs)
  obtain X y where b: "b = (X, y)" by (cases b)
  from Cons.prems obtain s1 where
    s1: "train_batch fw lf s (X, y) = Inr s1" and r: "train_batches fw lf bs s1 = Inr s'"
    by (auto simp: b split: sum.splits)
  from train_batch_InrD[OF s1] obtain pred m1 where
    f: "forward (ts_model s) X = Inr (pred, m1)" and
    m: "ts_model s1 = set_parameters
          (fst (step fw (ts_opt s) (Some (gradient fw (ts_model s) X y)) (parameters m1))) m1"
    by blast
  have "parameters (ts_model s1) = parameters m1"
    by (simp add: m parameters_set_parameters assms(2))
  also have "\<dots> = parameters (ts_model s)"
    by (rule parameters_clear_buffers[OF forward_clear_buffers[OF f]])
  finally show ?case using Cons.IH[OF r] by simp
qed

lemma train_batches_total:
  assumes "architecture (ts_model s)" "\<forall>b \<in> set bs. valid_batch b"
  shows "\<exists>s'. train_batches fw nll_loss bs s = Inr s' \<and> architecture (ts_model s')"
  using assms
proof (induction bs arbitrary: s)
  case Nil
  then show ?case by simp
next
  case (Cons b bs)
  obtain X y where b: "b = (X, y)" by (cases b)
  with Cons.prems have "valid_batch (X, y)" by simp
  from forward_valid_batch[OF Cons.prems(1) this] obtain pred m' loss where
    f: "forward (ts_model s) X = Inr (pred, m')" "nll_loss pred y = Inr loss" "architecture m'"
    by blast
  then have "\<exists>s1. train_batch fw nll_loss s (X, y) = Inr s1"
    by (simp add: train_batch_def model_call_def loss_call_def)
  then obtain s1 where s1: "train_batch fw nll_loss s (X, y) = Inr s1" by blast
  from train_batch_InrD[OF s1] f(1) obtain p where "ts_model s1 = set_parameters p m'" by auto
  with f(3) have "architecture (ts_model s1)" by (simp add: architecture_set_parameters)
  from Cons.IH[OF this] Cons.prems(2) s1 show ?case by (simp add: b)
qed

lemma train_loop_total:
  assumes "architecture (ts_model s)" "valid_loader dl"
  shows "\<exists>s'. train_loop fw dl nll_loss s = Inr s' \<and> architecture (ts_model s')"
  unfolding train_loop_def
  using train_batches_total[OF assms(1)] valid_loader_batches[OF assms(2)] by blast

text \<open>
  Claim C5. The evaluation loop leaves every learnable parameter as it was: the kernels
  and biases of the convolutions, the scale and shift of the normalisation layers, the
  weights and bias of the linear layer. The training loop changes them through the
  optimizer step alone: with a step that returns the parameters it is given, the
  training loop leaves them as they were too.
\<close>

theorem test_loop_preserves_parameters:
  "(test_loop dl m lf = Inr (r, m') \<longrightarrow> parameters m' = parameters m) \<and>
   ((\<forall>opt g p. fst (step fw opt g p) = p) \<and> train_loop fw dl2 lf2 s = Inr s' \<longrightarrow>
      parameters (ts_model s') = parameters (ts_model s))"
proof (intro conjI impI)
  assume "test_loop dl m lf = Inr (r, m')"
  from test_loop_InrD[OF this] obtain test_loss correct where
    "test_batches lf (batches dl) m 0 0 = Inr (test_loss, correct, m')" by blast
  from test_batches_result[OF this] have "clear_buffers m' = clear_buffers m" by simp
  then show "parameters m' = parameters m" by (rule parameters_clear_buffers)
next
  assume "(\<forall>opt g p. fst (step fw opt g p) = p) \<and> train_loop fw dl2 lf2 s = Inr s'"
  then show "parameters (ts_model s') = parameters (ts_model s)"
    using train_batches_parameters[of fw lf2 "batches dl2" s s'] by (simp add: train_loop_def)
qed

lemma example_state_architecture: "architecture (ts_model example_state)"
  by (simp add: example_state_def example_model_architecture)

theorem test_loop_preserves_parameters_witness:
  "\<exists>r m' s'. test_loop black_loader example_model nll_loss = Inr (r, m') \<and>
      parameters m' = parameters example_model \<and>
      (\<forall>opt g p. fst (step example_framework opt g p) = p) \<and>
      train_loop example_framework black_loader nll_loss example_state = Inr s' \<and>
      parameters (ts_model s') = parameters (ts_model example_state)"
proof -
  from test_loop_total[OF example_model_architecture black_loader_valid] obtain r m' where
    t: "test_loop black_loader example_model nll_loss = Inr (r, m')" by blast
  from train_loop_total[OF example_state_architecture black_loader_valid, of example_framework]
  obtain s' where
    s: "train_loop example_framework black_loader nll_loss example_state = Inr s'" by blast
  have i: "\<forall>opt g p. fst (step example_framework opt g p) = p"
    by (simp add: example_framework_def)
  from test_loop_preserves_parameters[of black_loader example_model nll_loss r m'
      example_framework black_loader nll_loss example_state s'] t s i
  show ?thesis by blast
qed

lemma batches_black_loader: "batches black_loader = [([black_image], [0])]"
proof -
  have "chunks 64 [(black_image, 0::nat)] = [[(black_image, 0)]]"
    by (simp add: chunks_step)
  then show ?thesis by (simp add: batches_def black_loader_def collate_def)
qed

lemma train_batch_effect:
  assumes "train_batch fw lf s (X, y) = Inr s'"
  shows "\<exists>pred m1 loss.
           forward (ts_model s) X = Inr (pred, m1) \<and> lf pred y = Inr loss \<and>
           s' = \<lparr>ts_model =
                   set_parameters
                     (fst (step fw (ts_opt s) (Some (gradient fw (ts_model s) X y)) (parameters m1)))
                     m1,
                 ts_grad = Some (gradient fw (ts_model s) X y),
                 ts_opt = snd (step fw (ts_opt s) (Some (gradient fw (ts_model s) X y)) (parameters m1)),
                 ts_trace =
                   ts_trace s @ [ModelOutput, LossComputed, ZeroGrad, Backward, OptimizerStep]\<rparr>"
  using assms
  by (auto simp: train_batch_def model_call_def loss_call_def zero_grad_def loss_backward_def
      optimizer_step_def backward_def split: sum.splits prod.splits)

lemma train_batches_append:
  "train_batches fw lf (xs @ ys) s =
     (case train_batches fw lf xs s of Inl e \<Rightarrow> Inl e | Inr s1 \<Rightarrow> train_batches fw lf ys s1)"
  by (induction xs arbitrary: s) (auto split: sum.splits)

lemma train_batches_prefix:
  assumes "train_batches fw lf bs s = Inr s'" "k < length bs"
  shows "\<exists>sk. train_batches fw lf (take k bs) s = Inr sk \<and>
           train_batches fw lf (take (Suc k) bs) s = train_batch fw lf sk (bs ! k) \<and>
           (\<exists>sk'. train_batch fw lf sk (bs ! k) = Inr sk')"
proof -
  have bs: "bs = take k bs @ (bs ! k # drop (Suc k) bs)"
    using assms(2) by (simp add: Cons_nth_drop_Suc)
  from assms(1) obtain sk where sk: "train_batches fw lf (take k bs) s = Inr sk"
    and r: "train_batches fw lf (bs ! k # drop (Suc k) bs) sk = Inr s'"
    by (subst (asm) bs, simp add: train_batches_append split: sum.splits)
  from r obtain sk' where sk': "train_batch fw lf sk (bs ! k) = Inr sk'"
    by (auto split: sum.splits)
  have "take (Suc k) bs = take k bs @ [bs ! k]"
    using assms(2) by (simp add: take_Suc_conv_app_nth)
  then have "train_batches fw lf (take (Suc k) bs) s = train_batch fw lf sk (bs ! k)"
    using sk sk' by (simp add: train_batches_append)
  with sk sk' show ?thesis by blast
qed

text \<open>
  Claim C3, as the code has it. In every pass of the training loop the calls come in
  this order: the output of the model, the loss against the true labels, the clearing
  of the gradients, the gradients of the loss, one optimizer step. The trace, which
  every call extends by itself, shows it. The states show it too: for every batch, the
  state after the batch is the state before it with the model that the forward pass
  left, with the gradient buffer holding the gradient of this batch alone, whatever the
  buffer held before, and with the parameters and the optimizer state that the step
  computed from exactly that gradient. So the clearing comes before the gradients of
  the same batch and after the step of the batch before, and after the last batch the
  gradients stay in place.
\<close>

theorem train_loop_order:
  assumes "train_loop fw dl lf s = Inr s'"
  shows "ts_trace s' = ts_trace s @
           concat (map (\<lambda>b. [ModelOutput, LossComputed, ZeroGrad, Backward, OptimizerStep])
             (batches dl)) \<and>
         train_batches fw lf (take (length (batches dl)) (batches dl)) s = Inr s' \<and>
         (\<forall>k < length (batches dl). \<exists>sk pred m1 loss.
            train_batches fw lf (take k (batches dl)) s = Inr sk \<and>
            forward (ts_model sk) (fst (batches dl ! k)) = Inr (pred, m1) \<and>
            lf pred (snd (batches dl ! k)) = Inr loss \<and>
            train_batches fw lf (take (Suc k) (batches dl)) s =
              Inr \<lparr>ts_model =
                     set_parameters
                       (fst (step fw (ts_opt sk)
                          (Some (gradient fw (ts_model sk) (fst (batches dl ! k)) (snd (batches dl ! k))))
                          (parameters m1)))
                       m1,
                   ts_grad =
                     Some (gradient fw (ts_model sk) (fst (batches dl ! k)) (snd (batches dl ! k))),
                   ts_opt =
                     snd (step fw (ts_opt sk)
                       (Some (gradient fw (ts_model sk) (fst (batches dl ! k)) (snd (batches dl ! k))))
                       (parameters m1)),
                   ts_trace =
                     ts_trace sk @ [ModelOutput, LossComputed, ZeroGrad, Backward, OptimizerStep]\<rparr>)"
proof (intro conjI allI impI)
  from assms have a: "train_batches fw lf (batches dl) s = Inr s'" by (simp add: train_loop_def)
  from train_batches_trace[OF a]
  show "ts_trace s' = ts_trace s @
      concat (map (\<lambda>b. [ModelOutput, LossComputed, ZeroGrad, Backward, OptimizerStep]) (batches dl))"
    by simp
  from a show "train_batches fw lf (take (length (batches dl)) (batches dl)) s = Inr s'" by simp
  fix k assume k: "k < length (batches dl)"
  from train_batches_prefix[OF a k] obtain sk sk' where
    sk: "train_batches fw lf (take k (batches dl)) s = Inr sk" and
    eq: "train_batches fw lf (take (Suc k) (batches dl)) s = train_batch fw lf sk (batches dl ! k)" and
    sk': "train_batch fw lf sk (batches dl ! k) = Inr sk'" by blast
  obtain X y where b: "batches dl ! k = (X, y)" by (cases "batches dl ! k")
  from train_batch_effect[OF sk'[unfolded b]] sk eq sk' b
  show "\<exists>sk pred m1 loss.
      train_batches fw lf (take k (batches dl)) s = Inr sk \<and>
      forward (ts_model sk) (fst (batches dl ! k)) = Inr (pred, m1) \<and>
      lf pred (snd (batches dl ! k)) = Inr loss \<and>
      train_batches fw lf (take (Suc k) (batches dl)) s =
        Inr \<lparr>ts_model =
               set_parameters
                 (fst (step fw (ts_opt sk)
                    (Some (gradient fw (ts_model sk) (fst (batches dl ! k)) (snd (batches dl ! k))))
                    (parameters m1)))
                 m1,
             ts_grad =
               Some (gradient fw (ts_model sk) (fst (batches dl ! k)) (snd (batches dl ! k))),
             ts_opt =
               snd (step fw (ts_opt sk)
                 (Some (gradient fw (ts_model sk) (fst (batches dl ! k)) (snd (batches dl ! k))))
                 (parameters m1)),
             ts_trace =
               ts_trace sk @ [ModelOutput, LossComputed, ZeroGrad, Backward, OptimizerStep]\<rparr>"
    by auto
qed


lemma batches_pair_loader:
  "batches pair_loader = [([black_image, black_image], [0, 1]), ([black_image], [2])]"
proof -
  have "chunks 2 [(black_image, 0::nat), (black_image, 1), (black_image, 2)]
      = [[(black_image, 0), (black_image, 1)], [(black_image, 2)]]"
    by (simp add: chunks_step)
  then show ?thesis by (simp add: batches_def pair_loader_def collate_def)
qed

lemma pair_loader_valid: "valid_loader pair_loader"
  by (simp add: valid_loader_def pair_loader_def valid_example_def black_image_def
      has_shape3_def has_shape2_def)

lemma pair_batches_valid:
  "valid_batch ([black_image, black_image], [0, 1])" "valid_batch ([black_image], [2])"
  using valid_loader_batches[OF pair_loader_valid] by (simp_all add: batches_pair_loader)

lemma counting_step:
  "step counting_framework opt g p = (p, opt @ [g])"
  "gradient counting_framework m X y = length y"
  "backward counting_framework n (Some n0) = Some (n0 + n)"
  "backward counting_framework n None = Some n"
  by (simp_all add: counting_framework_def backward_def)

lemma train_batch_counting:
  assumes "architecture (ts_model s)" "valid_batch (X, y)"
  shows "\<exists>m. architecture m \<and>
           train_batch counting_framework nll_loss s (X, y) =
             Inr \<lparr>ts_model = m, ts_grad = Some (length y), ts_opt = ts_opt s @ [Some (length y)],
                  ts_trace = ts_trace s @ [ModelOutput, LossComputed, ZeroGrad, Backward, OptimizerStep]\<rparr>"
proof -
  from forward_valid_batch[OF assms] obtain pred m' loss where
    f: "forward (ts_model s) X = Inr (pred, m')" "nll_loss pred y = Inr loss" "architecture m'"
    by blast
  have "architecture (set_parameters (parameters m') m')"
    using f(3) by (simp add: architecture_set_parameters)
  moreover have "train_batch counting_framework nll_loss s (X, y) =
      Inr \<lparr>ts_model = set_parameters (parameters m') m', ts_grad = Some (length y),
           ts_opt = ts_opt s @ [Some (length y)],
           ts_trace = ts_trace s @ [ModelOutput, LossComputed, ZeroGrad, Backward, OptimizerStep]\<rparr>"
    by (simp add: train_batch_def model_call_def loss_call_def zero_grad_def loss_backward_def
        optimizer_step_def f counting_step)
  ultimately show ?thesis by blast
qed

lemma train_batch_specified_counting:
  assumes "architecture (ts_model s)" "valid_batch (X, y)"
  shows "\<exists>m. architecture m \<and>
           train_batch_specified counting_framework nll_loss s (X, y) =
             Inr \<lparr>ts_model = m, ts_grad = None,
                  ts_opt = ts_opt s @ [backward counting_framework (length y) (ts_grad s)],
                  ts_trace = ts_trace s @ specified_batch_order\<rparr>"
proof -
  from forward_valid_batch[OF assms] obtain pred m' loss where
    f: "forward (ts_model s) X = Inr (pred, m')" "nll_loss pred y = Inr loss" "architecture m'"
    by blast
  have "architecture (set_parameters (parameters m') m')"
    using f(3) by (simp add: architecture_set_parameters)
  moreover have "train_batch_specified counting_framework nll_loss s (X, y) =
      Inr \<lparr>ts_model = set_parameters (parameters m') m', ts_grad = None,
           ts_opt = ts_opt s @ [backward counting_framework (length y) (ts_grad s)],
           ts_trace = ts_trace s @ specified_batch_order\<rparr>"
    by (simp add: train_batch_specified_def model_call_def loss_call_def zero_grad_def
        loss_backward_def optimizer_step_def f counting_step specified_batch_order_def)
  ultimately show ?thesis by blast
qed

lemma stale_state_architecture: "architecture (ts_model stale_state)"
  by (simp add: stale_state_def example_model_architecture)

lemma pair_run:
  "\<exists>m. train_loop counting_framework pair_loader nll_loss stale_state =
     Inr \<lparr>ts_model = m, ts_grad = Some 1, ts_opt = [Some 2, Some 1],
          ts_trace = [ModelOutput, LossComputed, ZeroGrad, Backward, OptimizerStep,
                      ModelOutput, LossComputed, ZeroGrad, Backward, OptimizerStep]\<rparr>"
proof -
  from train_batch_counting[OF stale_state_architecture pair_batches_valid(1)]
  obtain m1 where m1: "architecture m1"
    "train_batch counting_framework nll_loss stale_state ([black_image, black_image], [0, 1]) =
       Inr \<lparr>ts_model = m1, ts_grad = Some 2, ts_opt = [Some 2],
            ts_trace = [ModelOutput, LossComputed, ZeroGrad, Backward, OptimizerStep]\<rparr>"
    by (auto simp: stale_state_def)
  let ?s1 = "\<lparr>ts_model = m1, ts_grad = Some (2::nat), ts_opt = [Some (2::nat)],
            ts_trace = [ModelOutput, LossComputed, ZeroGrad, Backward, OptimizerStep]\<rparr>"
  have "architecture (ts_model ?s1)" using m1(1) by simp
  from train_batch_counting[OF this pair_batches_valid(2)]
  obtain m2 where
    "train_batch counting_framework nll_loss ?s1 ([black_image], [2]) =
       Inr \<lparr>ts_model = m2, ts_grad = Some 1, ts_opt = [Some 2, Some 1],
            ts_trace = [ModelOutput, LossComputed, ZeroGrad, Backward, OptimizerStep,
                        ModelOutput, LossComputed, ZeroGrad, Backward, OptimizerStep]\<rparr>"
    by auto
  with m1(2) show ?thesis
    by (simp add: train_loop_def batches_pair_loader)
qed

lemma pair_run_specified:
  "\<exists>m. train_loop_specified counting_framework pair_loader nll_loss stale_state =
     Inr \<lparr>ts_model = m, ts_grad = None, ts_opt = [Some 9, Some 1],
          ts_trace = specified_batch_order @ specified_batch_order\<rparr>"
proof -
  from train_batch_specified_counting[OF stale_state_architecture pair_batches_valid(1)]
  obtain m1 where m1: "architecture m1"
    "train_batch_specified counting_framework nll_loss stale_state
        ([black_image, black_image], [0, 1]) =
       Inr \<lparr>ts_model = m1, ts_grad = None, ts_opt = [Some 9],
            ts_trace = specified_batch_order\<rparr>"
    by (auto simp: stale_state_def counting_step)
  let ?s1 = "\<lparr>ts_model = m1, ts_grad = None :: nat option, ts_opt = [Some (9::nat)],
            ts_trace = specified_batch_order\<rparr>"
  have "architecture (ts_model ?s1)" using m1(1) by simp
  from train_batch_specified_counting[OF this pair_batches_valid(2)]
  obtain m2 where
    "train_batch_specified counting_framework nll_loss ?s1 ([black_image], [2]) =
       Inr \<lparr>ts_model = m2, ts_grad = None, ts_opt = [Some 9, Some 1],
            ts_trace = specified_batch_order @ specified_batch_order\<rparr>"
    by (auto simp: counting_step)
  with m1(2) show ?thesis
    by (simp add: train_loop_specified_def batches_pair_loader)
qed

text \<open>
  Claim C3 as stated puts the clearing after the optimizer step. On the loader with two
  batches, started with a gradient of \<open>7\<close> left in the buffer, the loop of the code
  and the loop in the stated order differ: in the calls they make, in the gradients that
  the optimizer steps read (the batch gradients \<open>2\<close> and \<open>1\<close> in the code, \<open>9\<close> and
  \<open>1\<close> in the stated order, where the first step reads the old gradient too), and in
  the buffer at the end (the last gradient in the code, cleared in the stated order).
\<close>

theorem train_loop_order_counterexample:
  "trace_of (train_loop counting_framework pair_loader nll_loss stale_state)
     = Some [ModelOutput, LossComputed, ZeroGrad, Backward, OptimizerStep,
             ModelOutput, LossComputed, ZeroGrad, Backward, OptimizerStep] \<and>
   trace_of (train_loop_specified counting_framework pair_loader nll_loss stale_state)
     = Some (specified_batch_order @ specified_batch_order) \<and>
   trace_of (train_loop counting_framework pair_loader nll_loss stale_state)
     \<noteq> trace_of (train_loop_specified counting_framework pair_loader nll_loss stale_state) \<and>
   opt_of (train_loop counting_framework pair_loader nll_loss stale_state) = Some [Some 2, Some 1] \<and>
   opt_of (train_loop_specified counting_framework pair_loader nll_loss stale_state)
     = Some [Some 9, Some 1] \<and>
   grad_of (train_loop counting_framework pair_loader nll_loss stale_state) = Some 1 \<and>
   grad_of (train_loop_specified counting_framework pair_loader nll_loss stale_state) = None"
proof -
  from pair_run obtain m where
    a: "train_loop counting_framework pair_loader nll_loss stale_state =
     Inr \<lparr>ts_model = m, ts_grad = Some 1, ts_opt = [Some 2, Some 1],
          ts_trace = [ModelOutput, LossComputed, ZeroGrad, Backward, OptimizerStep,
                      ModelOutput, LossComputed, ZeroGrad, Backward, OptimizerStep]\<rparr>" by blast
  from pair_run_specified obtain m' where
    b: "train_loop_specified counting_framework pair_loader nll_loss stale_state =
     Inr \<lparr>ts_model = m', ts_grad = None, ts_opt = [Some 9, Some 1],
          ts_trace = specified_batch_order @ specified_batch_order\<rparr>" by blast
  show ?thesis
    by (simp add: a b trace_of_def opt_of_def grad_of_def specified_batch_order_def)
qed

theorem train_loop_order_witness:
  "\<exists>s'. train_loop counting_framework pair_loader nll_loss stale_state = Inr s' \<and>
      length (batches pair_loader) = 2 \<and>
      ts_trace s' = [ModelOutput, LossComputed, ZeroGrad, Backward, OptimizerStep,
                     ModelOutput, LossComputed, ZeroGrad, Backward, OptimizerStep] \<and>
      ts_grad s' = Some 1 \<and> ts_opt s' = [Some 2, Some 1]"
proof -
  from pair_run obtain s' where
    s: "train_loop counting_framework pair_loader nll_loss stale_state = Inr s'" by blast
  note t = train_loop_order[OF s]
  have len: "length (batches pair_loader) = 2" by (simp add: batches_pair_loader)
  from t have tr: "ts_trace s' =
      [ModelOutput, LossComputed, ZeroGrad, Backward, OptimizerStep,
       ModelOutput, LossComputed, ZeroGrad, Backward, OptimizerStep]"
    by (simp add: batches_pair_loader stale_state_def)
  from t have fin: "train_batches counting_framework nll_loss (take 2 (batches pair_loader)) stale_state
      = Inr s'" by (simp add: len)
  from t len have "\<exists>sk pred m1 loss.
      train_batches counting_framework nll_loss (take 0 (batches pair_loader)) stale_state = Inr sk \<and>
      train_batches counting_framework nll_loss (take (Suc 0) (batches pair_loader)) stale_state =
        Inr \<lparr>ts_model =
               set_parameters
                 (fst (step counting_framework (ts_opt sk)
                    (Some (gradient counting_framework (ts_model sk) (fst (batches pair_loader ! 0))
                       (snd (batches pair_loader ! 0))))
                    (parameters m1)))
                 m1,
             ts_grad =
               Some (gradient counting_framework (ts_model sk) (fst (batches pair_loader ! 0))
                  (snd (batches pair_loader ! 0))),
             ts_opt =
               snd (step counting_framework (ts_opt sk)
                 (Some (gradient counting_framework (ts_model sk) (fst (batches pair_loader ! 0))
                    (snd (batches pair_loader ! 0))))
                 (parameters m1)),
             ts_trace =
               ts_trace sk @ [ModelOutput, LossComputed, ZeroGrad, Backward, OptimizerStep]\<rparr>"
    by (metis (no_types, lifting) zero_less_numeral)
  then obtain s1 where
    s1: "train_batches counting_framework nll_loss (take (Suc 0) (batches pair_loader)) stale_state
           = Inr s1" "ts_opt s1 = [Some 2]"
    by (auto simp: counting_step batches_pair_loader stale_state_def)
  from t len have "\<exists>sk pred m1 loss.
      train_batches counting_framework nll_loss (take (Suc 0) (batches pair_loader)) stale_state = Inr sk \<and>
      train_batches counting_framework nll_loss (take (Suc (Suc 0)) (batches pair_loader)) stale_state =
        Inr \<lparr>ts_model =
               set_parameters
                 (fst (step counting_framework (ts_opt sk)
                    (Some (gradient counting_framework (ts_model sk) (fst (batches pair_loader ! Suc 0))
                       (snd (batches pair_loader ! Suc 0))))
                    (parameters m1)))
                 m1,
             ts_grad =
               Some (gradient counting_framework (ts_model sk) (fst (batches pair_loader ! Suc 0))
                  (snd (batches pair_loader ! Suc 0))),
             ts_opt =
               snd (step counting_framework (ts_opt sk)
                 (Some (gradient counting_framework (ts_model sk) (fst (batches pair_loader ! Suc 0))
                    (snd (batches pair_loader ! Suc 0))))
                 (parameters m1)),
             ts_trace =
               ts_trace sk @ [ModelOutput, LossComputed, ZeroGrad, Backward, OptimizerStep]\<rparr>"
    by (metis (no_types, lifting) one_less_numeral_iff semiring_norm(76) One_nat_def)
  with s1 fin have "ts_grad s' = Some 1 \<and> ts_opt s' = [Some 2, Some 1]"
    by (auto simp: counting_step batches_pair_loader numeral_2_eq_2)
  with s len tr show ?thesis by blast
qed

section \<open>The mode of the model during evaluation\<close>

lemma length_batches_len: "length (batches dl) = len_dataloader dl"
proof (cases "batch_size dl = 0")
  case True
  then show ?thesis by (simp add: batches_def len_dataloader_def)
next
  case False
  then show ?thesis by (simp add: length_batches)
qed

lemma test_batches_indep:
  assumes "training m" "clear_buffers m2 = clear_buffers m"
    and "test_batches lf bs m test_loss correct = Inr (test_loss', correct', m')"
  shows "\<exists>m2'. test_batches lf bs m2 test_loss correct = Inr (test_loss', correct', m2')"
  using assms
proof (induction bs arbitrary: m m2 test_loss correct)
  case Nil
  then show ?case by simp
next
  case (Cons b bs)
  obtain X y where b: "b = (X, y)" by (cases b)
  from Cons.prems(3) obtain pred m1 loss where
    f: "forward m X = Inr (pred, m1)" and l: "lf pred y = Inr loss" and
    r: "test_batches lf bs m1 (test_loss + loss) (correct + num_correct pred y)
          = Inr (test_loss', correct', m')"
    by (auto simp: b split: sum.splits prod.splits)
  have "outputs m2 X = Inr pred"
    using outputs_indep[OF Cons.prems(1,2), of X] outputs_forward[OF f] by simp
  from outputs_InrD[OF this] obtain m3 where f2: "forward m2 X = Inr (pred, m3)" by blast
  have c1: "clear_buffers m1 = clear_buffers m" by (rule forward_clear_buffers[OF f])
  have c3: "clear_buffers m3 = clear_buffers m1"
    using forward_clear_buffers[OF f2] Cons.prems(2) c1 by simp
  have t1: "training m1" using clear_buffers_eqD(6)[OF c1] Cons.prems(1) by simp
  from Cons.IH[OF t1 c3 r] show ?case by (simp add: b f2 l)
qed

lemma bn_inputs_indep:
  assumes "clear_buffers m2 = clear_buffers m"
  shows "bn1_input m2 X = bn1_input m X" "bn2_input m2 X = bn2_input m X"
proof -
  note e = clear_buffers_eqD[OF assms]
  show "bn1_input m2 X = bn1_input m X" by (simp add: bn1_input_def e)
  note i1 = batchnorm2d_apply_indep[OF e(8)]
  show "bn2_input m2 X = bn2_input m X"
  proof (cases "conv2d_apply (conv1 m) X")
    case (Inl a)
    then show ?thesis by (simp add: bn2_input_def e)
  next
    case c1: (Inr c1)
    show ?thesis
    proof (cases "batchnorm2d_apply True (bn1 m) c1")
      case (Inl a)
      with i1(1)[OF Inl] c1 show ?thesis by (simp add: bn2_input_def e)
    next
      case (Inr yb)
      obtain n1 b1 where yb: "yb = (n1, b1)" by (cases yb)
      from i1(2)[OF Inr[unfolded yb]] obtain b1' where
        "batchnorm2d_apply True (bn1 m2) c1 = Inr (n1, b1')" by blast
      with c1 Inr yb show ?thesis by (simp add: bn2_input_def e cong: sum.case_cong)
    qed
  qed
qed

lemma batchnorm2d_apply_training_stats:
  assumes "batchnorm2d_apply True L x = Inr (y, L')" "x \<noteq> []"
  shows "running_mean L' = moving_average (running_mean L) (batch_means x (num_features L))"
    and "running_var L' = moving_average (running_var L) (batch_vars x (num_features L))"
    and "length y = length x"
  using assms
  by (auto simp: batchnorm2d_apply_def Let_def moving_average_def batch_means_def batch_vars_def
      bn_normalize_def split: if_splits)

lemma conv2d_apply_length: "conv2d_apply L x = Inr y \<Longrightarrow> length y = length x"
  by (auto simp: conv2d_apply_def split: if_splits)

lemma maxpool2d_apply_length: "maxpool2d_apply L x = Inr y \<Longrightarrow> length y = length x"
  by (auto simp: maxpool2d_apply_def split: if_splits)

lemma forward_training_stats:
  assumes "training m" "X \<noteq> []" "forward m X = Inr (out, m1)"
  shows "running_mean (bn1 m1) =
           moving_average (running_mean (bn1 m)) (batch_means (bn1_input m X) (num_features (bn1 m)))"
    and "running_var (bn1 m1) =
           moving_average (running_var (bn1 m)) (batch_vars (bn1_input m X) (num_features (bn1 m)))"
    and "running_mean (bn2 m1) =
           moving_average (running_mean (bn2 m)) (batch_means (bn2_input m X) (num_features (bn2 m)))"
    and "running_var (bn2 m1) =
           moving_average (running_var (bn2 m)) (batch_vars (bn2_input m X) (num_features (bn2 m)))"
proof -
  from forward_InrD[OF assms(3)] assms(1) obtain c1 n1 b1 p1 c2 n2 b2 where
    c1: "conv2d_apply (conv1 m) X = Inr c1" and
    n1: "batchnorm2d_apply True (bn1 m) c1 = Inr (n1, b1)" and
    p1: "maxpool2d_apply (pool1 m) (relu4 n1) = Inr p1" and
    c2: "conv2d_apply (conv2 m) p1 = Inr c2" and
    n2: "batchnorm2d_apply True (bn2 m) c2 = Inr (n2, b2)" and
    m1: "m1 = m\<lparr>bn1 := b1, bn2 := b2\<rparr>"
    by auto
  from conv2d_apply_length[OF c1] assms(2) have c1n: "c1 \<noteq> []" by auto
  note s1 = batchnorm2d_apply_training_stats[OF n1 c1n]
  from s1(3) c1n have "relu4 n1 \<noteq> []" by (auto simp: relu4_def)
  with maxpool2d_apply_length[OF p1] have "p1 \<noteq> []" by auto
  with conv2d_apply_length[OF c2] have c2n: "c2 \<noteq> []" by auto
  note s2 = batchnorm2d_apply_training_stats[OF n2 c2n]
  have i1: "bn1_input m X = c1" by (simp add: bn1_input_def c1)
  have i2: "bn2_input m X = c2" by (simp add: bn2_input_def c1 n1 p1 c2)
  show "running_mean (bn1 m1) =
      moving_average (running_mean (bn1 m)) (batch_means (bn1_input m X) (num_features (bn1 m)))"
    by (simp add: m1 i1 s1(1))
  show "running_var (bn1 m1) =
      moving_average (running_var (bn1 m)) (batch_vars (bn1_input m X) (num_features (bn1 m)))"
    by (simp add: m1 i1 s1(2))
  show "running_mean (bn2 m1) =
      moving_average (running_mean (bn2 m)) (batch_means (bn2_input m X) (num_features (bn2 m)))"
    by (simp add: m1 i2 s2(1))
  show "running_var (bn2 m1) =
      moving_average (running_var (bn2 m)) (batch_vars (bn2_input m X) (num_features (bn2 m)))"
    by (simp add: m1 i2 s2(2))
qed


lemma track_Cons: "track stat (b # bs) old = track stat bs (moving_average old (stat (fst b)))"
  by (simp add: track_def)

lemma test_batches_stats:
  assumes "training m" "\<forall>b \<in> set bs. fst b \<noteq> []"
    and "test_batches lf bs m test_loss correct = Inr (test_loss', correct', m')"
  shows "running_mean (bn1 m') =
           track (\<lambda>X. batch_means (bn1_input m X) (num_features (bn1 m))) bs (running_mean (bn1 m)) \<and>
         running_var (bn1 m') =
           track (\<lambda>X. batch_vars (bn1_input m X) (num_features (bn1 m))) bs (running_var (bn1 m)) \<and>
         running_mean (bn2 m') =
           track (\<lambda>X. batch_means (bn2_input m X) (num_features (bn2 m))) bs (running_mean (bn2 m)) \<and>
         running_var (bn2 m') =
           track (\<lambda>X. batch_vars (bn2_input m X) (num_features (bn2 m))) bs (running_var (bn2 m))"
  using assms
proof (induction bs arbitrary: m test_loss correct)
  case Nil
  then show ?case by (simp add: track_def)
next
  case (Cons b bs)
  obtain X y where b: "b = (X, y)" by (cases b)
  from Cons.prems(3) obtain pred m1 loss where
    f: "forward m X = Inr (pred, m1)" and
    r: "test_batches lf bs m1 (test_loss + loss) (correct + num_correct pred y)
          = Inr (test_loss', correct', m')"
    by (auto simp: b split: sum.splits prod.splits)
  from Cons.prems(2) b have X: "X \<noteq> []" by simp
  have c1: "clear_buffers m1 = clear_buffers m" by (rule forward_clear_buffers[OF f])
  note e = clear_buffers_eqD[OF c1]
  have t1: "training m1" using e(6) Cons.prems(1) by simp
  have nf: "num_features (bn1 m1) = num_features (bn1 m)" "num_features (bn2 m1) = num_features (bn2 m)"
    using clear_stats_eqD(1)[OF e(8)] clear_stats_eqD(1)[OF e(9)] by simp_all
  from Cons.prems(2) have "\<forall>b \<in> set bs. fst b \<noteq> []" by simp
  note ih = Cons.IH[OF t1 this r]
  note st = forward_training_stats[OF Cons.prems(1) X f]
  show ?case
    using ih by (simp add: b track_Cons st nf bn_inputs_indep[OF c1])
qed

lemma test_loop_architecture:
  assumes "test_loop dl m lf = Inr (r, m')"
  shows "architecture m' = architecture m"
proof -
  from test_loop_InrD[OF assms] obtain test_loss correct where
    "test_batches lf (batches dl) m 0 0 = Inr (test_loss, correct, m')" by blast
  from test_batches_result[OF this] have "clear_buffers m' = clear_buffers m" by simp
  then show ?thesis by (rule architecture_clear_buffers)
qed

lemma test_loop_counts:
  assumes "training m" "test_loop dl m lf = Inr (r, m')"
  shows "training m'"
    and "num_batches_tracked (bn1 m') = num_batches_tracked (bn1 m) + len_dataloader dl"
    and "num_batches_tracked (bn2 m') = num_batches_tracked (bn2 m) + len_dataloader dl"
proof -
  from test_loop_InrD[OF assms(2)] obtain test_loss correct where
    t: "test_batches lf (batches dl) m 0 0 = Inr (test_loss, correct, m')" by blast
  note res = test_batches_result[OF t]
  from res have "clear_buffers m' = clear_buffers m" by simp
  from clear_buffers_eqD(6)[OF this] assms(1) show "training m'" by simp
  from res assms(1)
  show "num_batches_tracked (bn1 m') = num_batches_tracked (bn1 m) + len_dataloader dl"
    and "num_batches_tracked (bn2 m') = num_batches_tracked (bn2 m) + len_dataloader dl"
    by (simp_all add: length_batches_len)
qed

lemma epochs_loop_training:
  assumes "epochs_loop fw train_loader test_loader lf t s = Inr (rs, s')" "training (ts_model s)"
  shows "training (ts_model s') \<and> length rs = t \<and>
         num_batches_tracked (bn1 (ts_model s')) =
           num_batches_tracked (bn1 (ts_model s))
             + t * (len_dataloader train_loader + len_dataloader test_loader) \<and>
         num_batches_tracked (bn2 (ts_model s')) =
           num_batches_tracked (bn2 (ts_model s))
             + t * (len_dataloader train_loader + len_dataloader test_loader)"
  using assms
proof (induction t arbitrary: s rs)
  case 0
  then show ?case by simp
next
  case (Suc t)
  from Suc.prems(1) obtain s1 r m2 rs' where
    a: "train_loop fw train_loader lf s = Inr s1" and
    b: "test_loop test_loader (ts_model s1) lf = Inr (r, m2)" and
    c: "epochs_loop fw train_loader test_loader lf t (s1\<lparr>ts_model := m2\<rparr>) = Inr (rs', s')" and
    rs: "rs = r # rs'"
    by (auto split: sum.splits prod.splits)
  from train_batches_trace[of fw lf "batches train_loader" s s1] a Suc.prems(2)
  have t1: "training (ts_model s1)"
    and n1: "num_batches_tracked (bn1 (ts_model s1)) =
               num_batches_tracked (bn1 (ts_model s)) + len_dataloader train_loader"
            "num_batches_tracked (bn2 (ts_model s1)) =
               num_batches_tracked (bn2 (ts_model s)) + len_dataloader train_loader"
    by (simp_all add: train_loop_def length_batches_len)
  note n2 = test_loop_counts[OF t1 b]
  from n2(1) have "training (ts_model (s1\<lparr>ts_model := m2\<rparr>))" by simp
  from Suc.IH[OF c this] n1 n2(2,3) rs show ?case by (simp add: algebra_simps)
qed

lemma epochs_loop_total:
  assumes "architecture (ts_model s)" "valid_loader train_loader" "valid_loader test_loader"
  shows "\<exists>res. epochs_loop fw train_loader test_loader nll_loss t s = Inr res"
  using assms(1)
proof (induction t arbitrary: s)
  case 0
  then show ?case by simp
next
  case (Suc t)
  from train_loop_total[OF Suc.prems assms(2), of fw] obtain s1 where
    a: "train_loop fw train_loader nll_loss s = Inr s1" "architecture (ts_model s1)" by blast
  from test_loop_total[OF a(2) assms(3)] obtain r m2 where
    b: "test_loop test_loader (ts_model s1) nll_loss = Inr (r, m2)" by blast
  from test_loop_architecture[OF b] a(2) have "architecture (ts_model (s1\<lparr>ts_model := m2\<rparr>))"
    by simp
  from Suc.IH[OF this] obtain res where
    "epochs_loop fw train_loader test_loader nll_loss t (s1\<lparr>ts_model := m2\<rparr>) = Inr res" by blast
  with a(1) b show ?case by (cases res) simp
qed


lemma init_training: "training (ConvNetModel_init w dbg)"
  by (simp add: ConvNetModel_init_def)

lemma init_counters:
  "num_batches_tracked (bn1 (ConvNetModel_init w dbg)) = 0"
  "num_batches_tracked (bn2 (ConvNetModel_init w dbg)) = 0"
  by (simp_all add: ConvNetModel_init_def BatchNorm2d_def)

lemma batchnorm2d_apply_training_output:
  assumes "batchnorm2d_apply True L x = Inr (y, L')" "x \<noteq> []"
  shows "y = batch_normalized L x"
proof -
  have "bn_normalize L (map (\<lambda>c. mean (channel_values x c)) [0..<num_features L])
          (map (\<lambda>c. var_biased (channel_values x c)) [0..<num_features L]) x
        = batch_normalized L x"
    unfolding bn_normalize_def batch_normalized_def
    by (intro map_cong refl) simp
  with assms show ?thesis
    by (auto simp: batchnorm2d_apply_def Let_def split: if_splits)
qed

lemma forward_training_output:
  assumes "training m" "X \<noteq> []" "forward m X = Inr (out, m1)"
  shows "after_bn2 m (batch_normalized (bn2 m)
           (after_bn1 m (batch_normalized (bn1 m) (bn1_input m X)))) = Inr out"
    and "bn2_input m X = after_bn1 m (batch_normalized (bn1 m) (bn1_input m X))"
proof -
  from forward_InrD[OF assms(3)] assms(1) obtain c1 n1 b1 p1 c2 n2 b2 p2 f where
    c1: "conv2d_apply (conv1 m) X = Inr c1" and
    n1: "batchnorm2d_apply True (bn1 m) c1 = Inr (n1, b1)" and
    p1: "maxpool2d_apply (pool1 m) (relu4 n1) = Inr p1" and
    c2: "conv2d_apply (conv2 m) p1 = Inr c2" and
    n2: "batchnorm2d_apply True (bn2 m) c2 = Inr (n2, b2)" and
    p2: "maxpool2d_apply (pool2 m) (relu4 n2) = Inr p2" and
    f: "linear_apply (fc m) (flatten p2) = Inr f" and
    out: "out = log_softmax (relu2 f)"
    by auto
  from conv2d_apply_length[OF c1] assms(2) have c1n: "c1 \<noteq> []" by auto
  note s1 = batchnorm2d_apply_training_stats[OF n1 c1n]
  from s1(3) c1n have "relu4 n1 \<noteq> []" by (auto simp: relu4_def)
  with maxpool2d_apply_length[OF p1] have "p1 \<noteq> []" by auto
  with conv2d_apply_length[OF c2] have c2n: "c2 \<noteq> []" by auto
  have e1: "n1 = batch_normalized (bn1 m) c1"
    by (rule batchnorm2d_apply_training_output[OF n1 c1n])
  have e2: "n2 = batch_normalized (bn2 m) c2"
    by (rule batchnorm2d_apply_training_output[OF n2 c2n])
  have i1: "bn1_input m X = c1" by (simp add: bn1_input_def c1)
  have a1: "after_bn1 m n1 = c2" by (simp add: after_bn1_def p1 c2)
  have a2: "after_bn2 m n2 = Inr out" by (simp add: after_bn2_def p2 f out)
  show "after_bn2 m (batch_normalized (bn2 m)
      (after_bn1 m (batch_normalized (bn1 m) (bn1_input m X)))) = Inr out"
    using e1 e2 a1 a2 by (simp add: i1)
  have "bn2_input m X = c2" by (simp add: bn2_input_def c1 n1 p1 c2)
  then show "bn2_input m X = after_bn1 m (batch_normalized (bn1 m) (bn1_input m X))"
    using e1 a1 by (simp add: i1)
qed

lemma evaluation_uses_batch_statistics:
  assumes "training m" "clear_buffers m2 = clear_buffers m" "X \<noteq> []" "outputs m X = Inr pred"
  shows "outputs m2 X =
           after_bn2 m (batch_normalized (bn2 m)
             (after_bn1 m (batch_normalized (bn1 m) (bn1_input m X))))"
    and "bn2_input m2 X = after_bn1 m (batch_normalized (bn1 m) (bn1_input m X))"
proof -
  from outputs_InrD[OF assms(4)] obtain m1 where f: "forward m X = Inr (pred, m1)" by blast
  note o = forward_training_output[OF assms(1,3) f]
  from outputs_indep[OF assms(1,2), of X] assms(4) o(1)
  show "outputs m2 X =
      after_bn2 m (batch_normalized (bn2 m)
        (after_bn1 m (batch_normalized (bn1 m) (bn1_input m X))))" by simp
  from bn_inputs_indep(2)[OF assms(2), of X] o(2)
  show "bn2_input m2 X = after_bn1 m (batch_normalized (bn1 m) (bn1_input m X))" by simp
qed

text \<open>
  Claim C4. Nothing switches the model to evaluation mode: the constructor leaves it in
  training mode and neither loop touches the mode, so after the ten epochs of the driver
  the model is still in training mode and each normalisation layer has counted every
  batch of every training loop and of every evaluation loop. An evaluation loop entered
  in training mode therefore leaves the model in training mode, has each normalisation
  layer count one batch per batch of the loader, and moves each running mean and
  running variance once per batch towards the statistics of that batch. The model
  after the loop differs from the model before it, while the learnable parameters are
  the same. Every forward pass of the loop normalises with the statistics of its batch:
  its output is that of the rest of the network applied to the input of each
  normalisation layer with the batch mean of each channel subtracted and divided by the
  square root of the biased batch variance of the channel plus \<open>eps\<close>, then scaled
  and shifted. This holds from every state of the buffers, so the report does not
  depend on the running statistics the loop starts from.
\<close>

theorem evaluation_in_training_mode:
  "(training m \<and> test_loop dl m lf = Inr (r, m') \<longrightarrow>
      training m' \<and> 0 < len_dataloader dl \<and>
      num_batches_tracked (bn1 m') = num_batches_tracked (bn1 m) + len_dataloader dl \<and>
      num_batches_tracked (bn2 m') = num_batches_tracked (bn2 m) + len_dataloader dl \<and>
      running_mean (bn1 m') =
        track (\<lambda>X. batch_means (bn1_input m X) (num_features (bn1 m))) (batches dl)
          (running_mean (bn1 m)) \<and>
      running_var (bn1 m') =
        track (\<lambda>X. batch_vars (bn1_input m X) (num_features (bn1 m))) (batches dl)
          (running_var (bn1 m)) \<and>
      running_mean (bn2 m') =
        track (\<lambda>X. batch_means (bn2_input m X) (num_features (bn2 m))) (batches dl)
          (running_mean (bn2 m)) \<and>
      running_var (bn2 m') =
        track (\<lambda>X. batch_vars (bn2_input m X) (num_features (bn2 m))) (batches dl)
          (running_var (bn2 m)) \<and>
      m' \<noteq> m \<and> parameters m' = parameters m \<and>
      (\<forall>m2. clear_buffers m2 = clear_buffers m \<longrightarrow> (\<exists>m2'. test_loop dl m2 lf = Inr (r, m2'))) \<and>
      (\<forall>m2 b. clear_buffers m2 = clear_buffers m \<and> b \<in> set (batches dl) \<longrightarrow>
         outputs m2 (fst b) =
           after_bn2 m (batch_normalized (bn2 m)
             (after_bn1 m (batch_normalized (bn1 m) (bn1_input m (fst b))))) \<and>
         bn2_input m2 (fst b) = after_bn1 m (batch_normalized (bn1 m) (bn1_input m (fst b))))) \<and>
   (driver fw w opt0 train_loader test_loader = Inr (rs, s) \<longrightarrow>
      training (ts_model s) \<and> length rs = epochs \<and>
      num_batches_tracked (bn1 (ts_model s)) =
        epochs * (len_dataloader train_loader + len_dataloader test_loader) \<and>
      num_batches_tracked (bn2 (ts_model s)) =
        epochs * (len_dataloader train_loader + len_dataloader test_loader))"
proof (intro conjI impI)
  assume d: "driver fw w opt0 train_loader test_loader = Inr (rs, s)"
  let ?s0 = "\<lparr>ts_model = ConvNetModel_init w False, ts_grad = None, ts_opt = opt0, ts_trace = []\<rparr>"
  have "training (ts_model ?s0)" by (simp add: init_training)
  from epochs_loop_training[OF d[unfolded driver_def] this]
  show "training (ts_model s)" "length rs = epochs"
    "num_batches_tracked (bn1 (ts_model s)) =
       epochs * (len_dataloader train_loader + len_dataloader test_loader)"
    "num_batches_tracked (bn2 (ts_model s)) =
       epochs * (len_dataloader train_loader + len_dataloader test_loader)"
    by (simp_all add: init_counters)
next
  assume a: "training m \<and> test_loop dl m lf = Inr (r, m')"
  then have tm: "training m" and tl: "test_loop dl m lf = Inr (r, m')" by simp_all
  from test_loop_InrD[OF tl] obtain test_loss correct where
    t: "test_batches lf (batches dl) m 0 0 = Inr (test_loss, correct, m')" and
    n: "0 < len_dataloader dl" "dataset dl \<noteq> []" "0 < batch_size dl" and
    r: "accuracy r = correct / real (length (dataset dl))"
       "avg_loss r = test_loss / real (len_dataloader dl)"
    by blast
  note cnt = test_loop_counts[OF tm tl]
  show "training m'" by (rule cnt(1))
  show "0 < len_dataloader dl" by (rule n(1))
  show c1: "num_batches_tracked (bn1 m') = num_batches_tracked (bn1 m) + len_dataloader dl"
    by (rule cnt(2))
  show "num_batches_tracked (bn2 m') = num_batches_tracked (bn2 m) + len_dataloader dl"
    by (rule cnt(3))
  have ne: "\<forall>b \<in> set (batches dl). fst b \<noteq> []" using batches_cases[of _ dl] by blast
  note st = test_batches_stats[OF tm ne t]
  from st show "running_mean (bn1 m') =
      track (\<lambda>X. batch_means (bn1_input m X) (num_features (bn1 m))) (batches dl)
        (running_mean (bn1 m))" by blast
  from st show "running_var (bn1 m') =
      track (\<lambda>X. batch_vars (bn1_input m X) (num_features (bn1 m))) (batches dl)
        (running_var (bn1 m))" by blast
  from st show "running_mean (bn2 m') =
      track (\<lambda>X. batch_means (bn2_input m X) (num_features (bn2 m))) (batches dl)
        (running_mean (bn2 m))" by blast
  from st show "running_var (bn2 m') =
      track (\<lambda>X. batch_vars (bn2_input m X) (num_features (bn2 m))) (batches dl)
        (running_var (bn2 m))" by blast
  from c1 n(1) show "m' \<noteq> m" by auto
  from test_batches_result[OF t] have "clear_buffers m' = clear_buffers m" by simp
  then show "parameters m' = parameters m" by (rule parameters_clear_buffers)
  show "\<forall>m2. clear_buffers m2 = clear_buffers m \<longrightarrow> (\<exists>m2'. test_loop dl m2 lf = Inr (r, m2'))"
  proof (intro allI impI)
    fix m2 assume c: "clear_buffers m2 = clear_buffers m"
    from test_batches_indep[OF tm c t] obtain m2' where
      "test_batches lf (batches dl) m2 0 0 = Inr (test_loss, correct, m2')" by blast
    with n r have "test_loop dl m2 lf = Inr (r, m2')" by (simp add: test_loop_def)
    then show "\<exists>m2'. test_loop dl m2 lf = Inr (r, m2')" by blast
  qed
  show "\<forall>m2 b. clear_buffers m2 = clear_buffers m \<and> b \<in> set (batches dl) \<longrightarrow>
      outputs m2 (fst b) =
        after_bn2 m (batch_normalized (bn2 m)
          (after_bn1 m (batch_normalized (bn1 m) (bn1_input m (fst b))))) \<and>
      bn2_input m2 (fst b) = after_bn1 m (batch_normalized (bn1 m) (bn1_input m (fst b)))"
  proof (intro allI impI)
    fix m2 b
    assume h: "clear_buffers m2 = clear_buffers m \<and> b \<in> set (batches dl)"
    then have c: "clear_buffers m2 = clear_buffers m" and b: "b \<in> set (batches dl)" by simp_all
    from test_batches_result[OF t] b obtain pred where p: "outputs m (fst b) = Inr pred" by blast
    from ne b have x: "fst b \<noteq> []" by blast
    from evaluation_uses_batch_statistics[OF tm c x p]
    show "outputs m2 (fst b) =
        after_bn2 m (batch_normalized (bn2 m)
          (after_bn1 m (batch_normalized (bn1 m) (bn1_input m (fst b))))) \<and>
      bn2_input m2 (fst b) = after_bn1 m (batch_normalized (bn1 m) (bn1_input m (fst b)))"
      by blast
  qed
qed


lemma example_model_training: "training example_model"
  by (simp add: example_model_def ConvNetModel_init_def)

lemma len_black_loader: "len_dataloader black_loader = 1"
  by (simp add: len_dataloader_def black_loader_def)

theorem evaluation_in_training_mode_witness:
  "training example_model \<and>
   (\<exists>r m'. test_loop black_loader example_model nll_loss = Inr (r, m') \<and>
      training m' \<and>
      num_batches_tracked (bn1 m') = num_batches_tracked (bn1 example_model) + 1 \<and>
      num_batches_tracked (bn2 m') = num_batches_tracked (bn2 example_model) + 1 \<and>
      m' \<noteq> example_model \<and> parameters m' = parameters example_model) \<and>
   outputs example_model [black_image] =
     after_bn2 example_model (batch_normalized (bn2 example_model)
       (after_bn1 example_model (batch_normalized (bn1 example_model)
         (bn1_input example_model [black_image])))) \<and>
   (\<exists>rs s. driver example_framework example_weights () black_loader black_loader = Inr (rs, s) \<and>
      training (ts_model s) \<and> length rs = 10 \<and>
      num_batches_tracked (bn1 (ts_model s)) = 20 \<and>
      num_batches_tracked (bn2 (ts_model s)) = 20)"
proof -
  from test_loop_total[OF example_model_architecture black_loader_valid] obtain r m' where
    t: "test_loop black_loader example_model nll_loss = Inr (r, m')" by blast
  have "architecture (ts_model \<lparr>ts_model = ConvNetModel_init example_weights False,
      ts_grad = None, ts_opt = (), ts_trace = []\<rparr>)"
    by (simp add: architecture_init)
  from epochs_loop_total[OF this black_loader_valid black_loader_valid, of example_framework epochs]
  obtain rs s where
    d: "driver example_framework example_weights () black_loader black_loader = Inr (rs, s)"
    by (auto simp: driver_def)
  note th = evaluation_in_training_mode[of example_model black_loader nll_loss r m'
      example_framework example_weights "()" black_loader black_loader rs s]
  have b: "([black_image], [0]) \<in> set (batches black_loader)"
    by (simp add: batches_black_loader)
  from th t example_model_training have "\<forall>m2 b.
      clear_buffers m2 = clear_buffers example_model \<and> b \<in> set (batches black_loader) \<longrightarrow>
      outputs m2 (fst b) =
        after_bn2 example_model (batch_normalized (bn2 example_model)
          (after_bn1 example_model (batch_normalized (bn1 example_model)
            (bn1_input example_model (fst b)))))"
    by simp
  with b have o: "outputs example_model [black_image] =
      after_bn2 example_model (batch_normalized (bn2 example_model)
        (after_bn1 example_model (batch_normalized (bn1 example_model)
          (bn1_input example_model [black_image]))))"
    by fastforce
  from th t d example_model_training o
  show ?thesis by (simp add: len_black_loader epochs_def)
qed

section \<open>The order of activation and normalisation\<close>

text \<open>
  On a tensor that holds one value everywhere each layer can be evaluated in closed
  form. The lemmas below do this for the example model on the black batch, for the
  forward pass as it is written and for the documented order.
\<close>

lemma map_upt_const: "(\<And>i. a \<le> i \<Longrightarrow> i < b \<Longrightarrow> f i = c) \<Longrightarrow> map f [a..<b] = replicate (b - a) c"
  by (rule nth_equalityI) simp_all

lemma sum_list_zero: "(\<And>x. x \<in> set xs \<Longrightarrow> f x = (0::real)) \<Longrightarrow> (\<Sum>x \<leftarrow> xs. f x) = 0"
  by (induction xs) simp_all

lemma const4_shape: "has_shape4 (const4 n c h w v) n c h w"
  by (simp add: const4_def has_shape4_def has_shape3_def has_shape2_def)

lemma black_batch_const: "black_batch = const4 1 1 28 28 0"
  by (simp add: black_batch_def black_image_def const4_def)

lemma conv_image_zero:
  assumes "conv_weight L =
      replicate (out_channels L) (replicate (in_channels L)
        (replicate (kernel_size L) (replicate (kernel_size L) 0)))"
    and "conv_bias L = replicate (out_channels L) 0"
  shows "conv_image L oh ow img = replicate (out_channels L) (replicate oh (replicate ow 0))"
proof -
  have "conv_bias L ! oc +
        (\<Sum>c \<leftarrow> [0..<in_channels L]. \<Sum>di \<leftarrow> [0..<kernel_size L]. \<Sum>dj \<leftarrow> [0..<kernel_size L].
           conv_weight L ! oc ! c ! di ! dj *
           padded (padding L) (img ! c) (i * stride L + di) (j * stride L + dj)) = 0"
    if "oc < out_channels L" for oc i j
  proof -
    have "(\<Sum>c \<leftarrow> [0..<in_channels L]. \<Sum>di \<leftarrow> [0..<kernel_size L]. \<Sum>dj \<leftarrow> [0..<kernel_size L].
           conv_weight L ! oc ! c ! di ! dj *
           padded (padding L) (img ! c) (i * stride L + di) (j * stride L + dj)) = 0"
      by (intro sum_list_zero) (simp add: assms(1) that)
    with that show ?thesis by (simp add: assms(2))
  qed
  then have "map (\<lambda>oc. map (\<lambda>i. map (\<lambda>j.
        conv_bias L ! oc +
        (\<Sum>c \<leftarrow> [0..<in_channels L]. \<Sum>di \<leftarrow> [0..<kernel_size L]. \<Sum>dj \<leftarrow> [0..<kernel_size L].
           conv_weight L ! oc ! c ! di ! dj *
           padded (padding L) (img ! c) (i * stride L + di) (j * stride L + dj)))
       [0..<ow]) [0..<oh]) [0..<out_channels L]
     = map (\<lambda>oc. map (\<lambda>i. map (\<lambda>j. 0) [0..<ow]) [0..<oh]) [0..<out_channels L]"
    by (intro map_cong refl) simp
  then show ?thesis by (simp add: conv_image_def map_replicate_const)
qed

lemma conv2d_apply_zero:
  assumes "conv_weight L =
      replicate (out_channels L) (replicate (in_channels L)
        (replicate (kernel_size L) (replicate (kernel_size L) 0)))"
    and "conv_bias L = replicate (out_channels L) 0"
    and "has_shape4 x n (in_channels L) h w" "0 < n" "0 < in_channels L" "0 < h"
    and "kernel_size L \<le> h + 2 * padding L" "kernel_size L \<le> w + 2 * padding L"
  shows "conv2d_apply L x =
     Inr (const4 n (out_channels L) (out_size h (padding L) (kernel_size L) (stride L))
            (out_size w (padding L) (kernel_size L) (stride L)) 0)"
proof -
  note sz = has_shape4_sizes[OF assms(3-6)]
  have n: "length x = n" using assms(3) by (simp add: has_shape4_def)
  have "map (conv_image L oh ow) x
      = map (\<lambda>img. replicate (out_channels L) (replicate oh (replicate ow 0))) x" for oh ow
    by (rule map_cong) (simp_all add: conv_image_zero[OF assms(1,2)])
  then show ?thesis
    using sz assms(7,8) n
    by (simp add: conv2d_apply_def const4_def map_replicate_const)
qed

lemma concat_replicate_replicate: "concat (replicate a (replicate b v)) = replicate (a * b) v"
  by (induction a) (simp_all add: replicate_add)

lemma channel_values_const:
  "k < c \<Longrightarrow> channel_values (const4 n c h w v) k = replicate (n * (h * w)) v"
  by (simp add: channel_values_def const4_def concat_replicate_replicate map_replicate_const)

lemma mean_replicate: "0 < N \<Longrightarrow> mean (replicate N v) = v"
  by (simp add: mean_def sum_list_replicate)

lemma const4_sizes:
  assumes "0 < n" "0 < c" "0 < h"
  shows "const4 n c h w v \<noteq> []" "channels (const4 n c h w v) = c"
    "height (const4 n c h w v) = h" "width (const4 n c h w v) = w"
    "length (const4 n c h w v) = n"
  using has_shape4_sizes[OF const4_shape assms, of w v] by (simp_all add: const4_def)

lemma bn_normalize_const:
  assumes "num_features L = c" "bn_bias L = replicate c b" "0 < n" "0 < h" "0 < w"
  shows "bn_normalize L (map (\<lambda>k. mean (channel_values (const4 n c h w v) k)) [0..<c]) vs
           (const4 n c h w v) = const4 n c h w b"
proof -
  have N: "0 < n * (h * w)" using assms by simp
  have "map (\<lambda>k. map (map (\<lambda>u.
          (u - map (\<lambda>k. mean (channel_values (const4 n c h w v) k)) [0..<c] ! k)
            / sqrt (vs ! k + bn_eps) * bn_weight L ! k + bn_bias L ! k))
          (replicate c (replicate h (replicate w v)) ! k)) [0..<c]
      = replicate c (replicate h (replicate w b))"
    using map_upt_const[of 0 c _ "replicate h (replicate w b)"]
    by (simp add: channel_values_const mean_replicate[OF N] assms(2))
  then show ?thesis
    by (simp add: bn_normalize_def const4_def assms(1) map_replicate_const)
qed

lemma batchnorm2d_apply_const:
  assumes "num_features L = c" "bn_bias L = replicate c b" "0 < n" "0 < c" "0 < h" "0 < w"
    and "n * h * w \<noteq> 1"
  shows "\<exists>L'. batchnorm2d_apply True L (const4 n c h w v) = Inr (const4 n c h w b, L')"
  using assms(7) const4_sizes[OF assms(3,4,5), of w v]
    bn_normalize_const[OF assms(1,2,3,5,6)]
  by (simp add: batchnorm2d_apply_def Let_def assms(1))

lemma relu4_const: "relu4 (const4 n c h w v) = const4 n c h w (relu v)"
  by (simp add: relu4_def const4_def)


lemma upt_0_2: "[0..<2] = [0, Suc 0]"
  by (simp add: numeral_2_eq_2)

lemma pool_plane_const:
  assumes "pool_kernel L = 2" "pool_stride L = 2" "2 \<le> h" "2 \<le> w"
  shows "pool_plane L (out_size h 0 2 2) (out_size w 0 2 2) (replicate h (replicate w v))
           = replicate (out_size h 0 2 2) (replicate (out_size w 0 2 2) v)"
proof -
  have r: "i * 2 < d \<and> Suc (i * 2) < d" if "i < out_size d 0 2 2" "2 \<le> d" for i d :: nat
    using that by (simp add: out_size_def) arith
  have "maximum [replicate h (replicate w v) ! (i * pool_stride L + di) ! (j * pool_stride L + dj).
          di \<leftarrow> [0..<pool_kernel L], dj \<leftarrow> [0..<pool_kernel L]] = v"
    if "i < out_size h 0 2 2" "j < out_size w 0 2 2" for i j
    using r[OF that(1) assms(3)] r[OF that(2) assms(4)]
    by (simp add: assms(1,2) upt_0_2)
  then have "map (\<lambda>i. map (\<lambda>j.
        maximum [replicate h (replicate w v) ! (i * pool_stride L + di) ! (j * pool_stride L + dj).
                 di \<leftarrow> [0..<pool_kernel L], dj \<leftarrow> [0..<pool_kernel L]])
       [0..<out_size w 0 2 2]) [0..<out_size h 0 2 2]
     = map (\<lambda>i. map (\<lambda>j. v) [0..<out_size w 0 2 2]) [0..<out_size h 0 2 2]"
    by (intro map_cong refl) simp
  then show ?thesis by (simp add: pool_plane_def map_replicate_const)
qed

lemma maxpool2d_apply_const:
  assumes "pool_kernel L = 2" "pool_stride L = 2" "0 < n" "0 < c" "2 \<le> h" "2 \<le> w"
  shows "maxpool2d_apply L (const4 n c h w v)
           = Inr (const4 n c (out_size h 0 2 2) (out_size w 0 2 2) v)"
proof -
  from assms(5) have h: "0 < h" by simp
  note sz = const4_sizes[OF assms(3,4) h, of w v]
  have "map (map (pool_plane L (out_size h 0 2 2) (out_size w 0 2 2))) (const4 n c h w v)
      = const4 n c (out_size h 0 2 2) (out_size w 0 2 2) v"
    by (simp add: const4_def pool_plane_const[OF assms(1,2,5,6)])
  with sz assms show ?thesis by (simp add: maxpool2d_apply_def)
qed

lemma flatten_const: "flatten (const4 n c h w v) = replicate n (replicate (c * (h * w)) v)"
  by (simp add: flatten_def const4_def concat_replicate_replicate)

lemma example_fc:
  "in_features (fc example_model) = 108" "out_features (fc example_model) = 10"
  "fc_weight (fc example_model) = replicate 108 (- 1) # replicate 9 (replicate 108 0)"
  "fc_bias (fc example_model) = replicate 10 0"
  by (simp_all add: example_model_def ConvNetModel_init_def example_weights_def)

lemma linear_apply_example:
  "linear_apply (fc example_model) (replicate n (replicate 108 v))
     = Inr (replicate n ((108 * (v * - 1)) # replicate 9 0))"
proof -
  let ?W = "replicate 108 (- 1) # replicate 9 (replicate 108 (0::real))"
  let ?r = "replicate 108 v"
  have first: "(\<Sum>k \<leftarrow> [0..<108]. ?r ! k * ?W ! 0 ! k) = 108 * (v * - 1)"
  proof -
    have "map (\<lambda>k. ?r ! k * ?W ! 0 ! k) [0..<108] = replicate (108 - 0) (v * - 1)"
      by (rule map_upt_const) simp
    then show ?thesis by (simp add: sum_list_replicate)
  qed
  have rest: "(\<Sum>k \<leftarrow> [0..<108]. ?r ! k * ?W ! oc ! k) + replicate 10 (0::real) ! oc = 0"
    if "1 \<le> oc" "oc < 10" for oc
  proof -
    from that obtain j where j: "oc = Suc j" "j < 9" by (cases oc) auto
    have "(\<Sum>k \<leftarrow> [0..<108]. ?r ! k * ?W ! oc ! k) = 0"
      by (rule sum_list_zero) (simp add: j)
    with that show ?thesis by simp
  qed
  have "map (\<lambda>oc. (\<Sum>k \<leftarrow> [0..<108]. ?r ! k * ?W ! oc ! k) + replicate 10 (0::real) ! oc) [0..<10]
      = (108 * (v * - 1)) # replicate 9 0"
  proof -
    have "[0..<10] = 0 # [1..<10]" by (simp add: upt_conv_Cons)
    moreover have "map (\<lambda>oc. (\<Sum>k \<leftarrow> [0..<108]. ?r ! k * ?W ! oc ! k) + replicate 10 (0::real) ! oc)
        [1..<10] = replicate (10 - 1) 0"
      by (rule map_upt_const) (rule rest)
    ultimately show ?thesis using first by simp
  qed
  then show ?thesis
    by (simp add: linear_apply_def example_fc map_replicate_const)
qed

lemma log_softmax_uniform: "log_softmax_row (replicate 10 0) = replicate 10 (- ln 10)"
  by (simp add: log_softmax_row_def sum_list_replicate)

lemma log_softmax_peaked:
  "log_softmax_row (108 # replicate 9 0)
     = (108 - ln (exp 108 + 9)) # replicate 9 (- ln (exp 108 + 9))"
  by (simp add: log_softmax_row_def sum_list_replicate)


lemma example_layers:
  "in_channels (conv1 example_model) = 1" "out_channels (conv1 example_model) = 6"
  "kernel_size (conv1 example_model) = 3" "stride (conv1 example_model) = 1"
  "padding (conv1 example_model) = 0"
  "conv_weight (conv1 example_model) = replicate 6 (replicate 1 (replicate 3 (replicate 3 0)))"
  "conv_bias (conv1 example_model) = replicate 6 0"
  "num_features (bn1 example_model) = 6" "bn_bias (bn1 example_model) = replicate 6 0"
  "pool_kernel (pool1 example_model) = 2" "pool_stride (pool1 example_model) = 2"
  "in_channels (conv2 example_model) = 6" "out_channels (conv2 example_model) = 12"
  "kernel_size (conv2 example_model) = 3" "stride (conv2 example_model) = 2"
  "padding (conv2 example_model) = 0"
  "conv_weight (conv2 example_model) = replicate 12 (replicate 6 (replicate 3 (replicate 3 0)))"
  "conv_bias (conv2 example_model) = replicate 12 0"
  "num_features (bn2 example_model) = 12" "bn_bias (bn2 example_model) = replicate 12 (- 1)"
  "pool_kernel (pool2 example_model) = 2" "pool_stride (pool2 example_model) = 2"
  by (simp_all add: example_model_def ConvNetModel_init_def example_weights_def
      BatchNorm2d_def MaxPool2d_def)

lemma example_conv1: "conv2d_apply (conv1 example_model) black_batch = Inr (const4 1 6 26 26 0)"
  using conv2d_apply_zero[of "conv1 example_model" black_batch 1 28 28]
  by (simp add: example_layers black_batch_const const4_shape out_size_def)

lemma example_conv2:
  "conv2d_apply (conv2 example_model) (const4 1 6 13 13 0) = Inr (const4 1 12 6 6 0)"
  using conv2d_apply_zero[of "conv2 example_model" "const4 1 6 13 13 0" 1 13 13]
  by (simp add: example_layers const4_shape out_size_def)

lemma example_bn1:
  "\<exists>b1. batchnorm2d_apply True (bn1 example_model) (const4 1 6 26 26 0)
          = Inr (const4 1 6 26 26 0, b1)"
  by (rule batchnorm2d_apply_const) (simp_all add: example_layers)

lemma example_bn2:
  "\<exists>b2. batchnorm2d_apply True (bn2 example_model) (const4 1 12 6 6 0)
          = Inr (const4 1 12 6 6 (- 1), b2)"
  by (rule batchnorm2d_apply_const) (simp_all add: example_layers)

lemma example_pool1:
  "maxpool2d_apply (pool1 example_model) (const4 1 6 26 26 0) = Inr (const4 1 6 13 13 0)"
  using maxpool2d_apply_const[of "pool1 example_model" 1 6 26 26 0]
  by (simp add: example_layers out_size_def)

lemma example_pool2:
  "maxpool2d_apply (pool2 example_model) (const4 1 12 6 6 v) = Inr (const4 1 12 3 3 v)"
  using maxpool2d_apply_const[of "pool2 example_model" 1 12 6 6 v]
  by (simp add: example_layers out_size_def)

lemma relu_values: "relu 0 = 0" "relu (- 1) = 0" "relu 108 = 108"
  by (simp_all add: relu_def)

lemma example_final:
  "log_softmax (relu2 [replicate 10 0]) = [replicate 10 (- ln 10)]"
  "log_softmax (relu2 [108 # replicate 9 0])
     = [(108 - ln (exp 108 + 9)) # replicate 9 (- ln (exp 108 + 9))]"
  by (simp_all add: relu2_def log_softmax_def relu_values log_softmax_uniform log_softmax_peaked)

lemma example_outputs: "outputs example_model black_batch = Inr [replicate 10 (- ln 10)]"
proof -
  from example_bn1 obtain b1 where b1:
    "batchnorm2d_apply True (bn1 example_model) (const4 1 6 26 26 0) = Inr (const4 1 6 26 26 0, b1)"
    by blast
  from example_bn2 obtain b2 where b2:
    "batchnorm2d_apply True (bn2 example_model) (const4 1 12 6 6 0) = Inr (const4 1 12 6 6 (- 1), b2)"
    by blast
  have l: "linear_apply (fc example_model) (flatten (const4 1 12 3 3 0)) = Inr [replicate 10 0]"
    using linear_apply_example[of 1 0] by (simp add: flatten_const numeral_eq_Suc)
  show ?thesis
    unfolding outputs_def forward_def
    by (simp only: example_model_training example_conv1 b1 relu4_const relu_values
        example_pool1 example_conv2 b2 example_pool2 l example_final
        sum.case prod.case)
qed

lemma example_outputs_documented:
  "outputs_documented example_model black_batch
     = Inr [(108 - ln (exp 108 + 9)) # replicate 9 (- ln (exp 108 + 9))]"
proof -
  from example_bn1 obtain b1 where b1:
    "batchnorm2d_apply True (bn1 example_model) (const4 1 6 26 26 0) = Inr (const4 1 6 26 26 0, b1)"
    by blast
  from example_bn2 obtain b2 where b2:
    "batchnorm2d_apply True (bn2 example_model) (const4 1 12 6 6 0) = Inr (const4 1 12 6 6 (- 1), b2)"
    by blast
  have l: "linear_apply (fc example_model) (flatten (const4 1 12 3 3 (- 1)))
      = Inr [108 # replicate 9 0]"
    using linear_apply_example[of 1 "- 1"] by (simp add: flatten_const)
  show ?thesis
    unfolding outputs_documented_def forward_documented_def
    by (simp only: example_model_training example_conv1 b1 relu4_const relu_values
        example_pool1 example_conv2 b2 example_pool2 l example_final
        sum.case prod.case)
qed

text \<open>
  Claim C1 says that each convolution stage applies convolution, activation,
  normalisation, pooling, in this order, as the comments of \<open>forward\<close> do. The code
  applies \<open>pool (relu (bn (conv x)))\<close>: normalisation before activation. On the example
  model and the black batch the two orders give different outputs: the code returns the
  uniform distribution over the ten classes, the documented order a distribution peaked
  on the first class.
\<close>

theorem forward_normalizes_before_activation:
  "outputs example_model black_batch = Inr [replicate 10 (- ln 10)] \<and>
   outputs_documented example_model black_batch
     = Inr [(108 - ln (exp 108 + 9)) # replicate 9 (- ln (exp 108 + 9))] \<and>
   outputs example_model black_batch \<noteq> outputs_documented example_model black_batch"
proof -
  have "exp (108::real) \<noteq> 1" by simp
  then have "(10::real) \<noteq> exp 108 + 9" by simp
  moreover have "(0::real) < exp 108 + 9" by (simp add: add_pos_pos)
  ultimately have "ln (10::real) \<noteq> ln (exp 108 + 9)" by (simp del: exp_eq_one_iff)
  then have "replicate 10 (- ln (10::real)) \<noteq>
      (108 - ln (exp 108 + 9)) # replicate 9 (- ln (exp 108 + 9))"
    by (simp add: numeral_eq_Suc)
  then show ?thesis by (simp add: example_outputs example_outputs_documented)
qed

end
